theory Spec2Isabelle
  imports Main "HOL-Library.Word"
begin

section \<open>Python values and exceptions\<close>

text \<open>
  The exceptions the modelled functions can raise. A Python 2 string exception
  (\<^verbatim>\<open>raise "..."\<close>) is \<open>StringException\<close> with the text raised.
\<close>

datatype error =
    NotImplementedError
  | TypeError
  | ValueError
  | StructError
  | KeyError string
  | AttributeError string
  | AssertionError
  | UnboundLocalError string
  | RequiredOptionMissingError
  | StringException string

section \<open>commands.py: uniq_c\<close>

text \<open>
  The loop of \<^verbatim>\<open>uniq_c\<close> over \<^verbatim>\<open>arr\<close>. The state is the four locals
  \<^verbatim>\<open>(first, count, last, ret)\<close>; \<^verbatim>\<open>last\<close> is unbound until the first element
  has been seen, and reading it unbound raises.
\<close>

type_synonym 'a uniq_state = "bool \<times> int \<times> 'a option \<times> (int \<times> 'a) list"

fun uniq_c_loop :: "'a list \<Rightarrow> 'a uniq_state \<Rightarrow> error + 'a uniq_state" where
  "uniq_c_loop [] st = Inr st"
| "uniq_c_loop (x # xs) (first, count, last', ret) =
     (if first then uniq_c_loop xs (False, count, Some x, ret)
      else (case last' of
              None \<Rightarrow> Inl (UnboundLocalError ''last'')
            | Some l \<Rightarrow>
                if x = l then uniq_c_loop xs (first, count + 1, last', ret)
                else uniq_c_loop xs (first, 1, Some x, ret @ [(count, l)])))"

definition uniq_c :: "'a list \<Rightarrow> error + (int \<times> 'a) list" where
  "uniq_c arr =
     (case uniq_c_loop arr (True, 1, None, []) of
        Inl e \<Rightarrow> Inl e
      | Inr (first, count, last', ret) \<Rightarrow>
          if \<not> first then
            (case last' of
               None \<Rightarrow> Inl (UnboundLocalError ''last'')
             | Some l \<Rightarrow> Inr (ret @ [(count, l)]))
          else Inr ret)"

text \<open>Expanding a list of (count, value) pairs back into the list it encodes.\<close>

definition rl_expand :: "(int \<times> 'a) list \<Rightarrow> 'a list" where
  "rl_expand r = concat (map (\<lambda>(c, v). replicate (nat c) v) r)"


section \<open>metadata.py: FileMetaData and mode_to_str\<close>

text \<open>
  The Python values that occur as attribute values, with Python's truth value.
\<close>

datatype pyval =
    PNone
  | PBool bool
  | PInt int
  | PStr string
  | PTuple "pyval list"
  | PList "pyval list"
  | PMethod string

fun truthy :: "pyval \<Rightarrow> bool" where
  "truthy PNone = False"
| "truthy (PBool b) = b"
| "truthy (PInt i) = (i \<noteq> 0)"
| "truthy (PStr s) = (s \<noteq> [])"
| "truthy (PTuple xs) = (xs \<noteq> [])"
| "truthy (PList xs) = (xs \<noteq> [])"
| "truthy (PMethod name) = True"

text \<open>Sequencing of computations that may raise.\<close>

definition bindE :: "error + 'a \<Rightarrow> ('a \<Rightarrow> error + 'b) \<Rightarrow> error + 'b" where
  "bindE m f = (case m of Inl e \<Rightarrow> Inl e | Inr x \<Rightarrow> f x)"

text \<open>
  An instance is its \<^verbatim>\<open>__dict__\<close>: a map from attribute names to values.
  \<^verbatim>\<open>getattr\<close> looks a name up in the instance first and then in the class, and
  raises \<^verbatim>\<open>AttributeError\<close> when neither has it. The class attributes are those
  the class body defines: the list \<^verbatim>\<open>propnames\<close> and the methods (the attributes
  every object inherits, such as \<^verbatim>\<open>__class__\<close>, are not modelled).
\<close>

type_synonym pyobj = "string \<rightharpoonup> pyval"

definition propnames :: "string list" where
  "propnames =
     [''is_directory'', ''is_character_device'', ''is_block_device'', ''is_regular'',
      ''is_fifo'', ''is_symlink'', ''uid'', ''gid'', ''size'', ''atime'', ''mtime'',
      ''ctime'', ''is_setuid'', ''is_setgid'', ''is_sticky'', ''yser_read'',
      ''group_read'', ''other_read'', ''user_write'', ''group_write'', ''other_write'',
      ''user_execute'', ''group_execute'', ''other_execute'']"

definition class_attr :: "string \<Rightarrow> pyval option" where
  "class_attr key =
     (if key = ''propnames'' then Some (PList (map PStr propnames))
      else if key \<in> set [''__init__'', ''__setattr__'', ''__getitem__'', ''from_string'',
                           ''to_string'']
      then Some (PMethod key)
      else None)"

definition getattr :: "pyobj \<Rightarrow> string \<Rightarrow> error + pyval" where
  "getattr self key =
     (case self key of
        Some v \<Rightarrow> Inr v
      | None \<Rightarrow> (case class_attr key of
                   Some v \<Rightarrow> Inr v
                 | None \<Rightarrow> Inl (AttributeError key)))"

text \<open>
  \<^verbatim>\<open>key in container\<close> for a string key: membership in a list or tuple, substring
  of a string, \<^verbatim>\<open>TypeError\<close> for a value that is not iterable.
\<close>

definition is_substring :: "string \<Rightarrow> string \<Rightarrow> bool" where
  "is_substring key s =
     list_ex (\<lambda>i. take (length key) (drop i s) = key) [0 ..< Suc (length s)]"

fun py_in :: "string \<Rightarrow> pyval \<Rightarrow> error + bool" where
  "py_in key (PList xs) = Inr (PStr key \<in> set xs)"
| "py_in key (PTuple xs) = Inr (PStr key \<in> set xs)"
| "py_in key (PStr s) = Inr (is_substring key s)"
| "py_in key PNone = Inl TypeError"
| "py_in key (PBool b) = Inl TypeError"
| "py_in key (PInt i) = Inl TypeError"
| "py_in key (PMethod name) = Inl TypeError"

definition startswith_underscore :: "string \<Rightarrow> bool" where
  "startswith_underscore key = (case key of [] \<Rightarrow> False | c # _ \<Rightarrow> c = CHR ''_'')"

text \<open>
  Inside the class body \<^verbatim>\<open>self.__write_protected\<close> is the attribute
  \<^verbatim>\<open>_FileMetaData__write_protected\<close> (name mangling).
\<close>

definition write_protected :: string where
  "write_protected = ''_FileMetaData__write_protected''"

text \<open>
  \<^verbatim>\<open>__setattr__(self, key, value)\<close>. The result is the exception raised, if any,
  and the instance after the call. The \<^verbatim>\<open>and\<close> reads the flag only when the key
  does not start with an underscore.
\<close>

definition FileMetaData_setattr :: "pyobj \<Rightarrow> string \<Rightarrow> pyval \<Rightarrow> error option \<times> pyobj" where
  "FileMetaData_setattr self key value =
     (if \<not> startswith_underscore key then
        (case getattr self write_protected of
           Inl e \<Rightarrow> (Some e, self)
         | Inr wp \<Rightarrow>
             if truthy wp then (Some AssertionError, self)
             else (None, self(key \<mapsto> value)))
      else (None, self(key \<mapsto> value)))"

text \<open>Inside \<^verbatim>\<open>__init__\<close> an exception of \<^verbatim>\<open>setattr\<close> ends the construction.\<close>

definition setattr_raise :: "pyobj \<Rightarrow> string \<Rightarrow> pyval \<Rightarrow> error + pyobj" where
  "setattr_raise self key value =
     (case FileMetaData_setattr self key value of
        (Some e, _) \<Rightarrow> Inl e
      | (None, self') \<Rightarrow> Inr self')"

text \<open>\<^verbatim>\<open>for prop in self.propnames: setattr(self, prop, getattr(other, prop))\<close>\<close>

fun init_from_other :: "pyobj \<Rightarrow> pyobj \<Rightarrow> string list \<Rightarrow> error + pyobj" where
  "init_from_other self other [] = Inr self"
| "init_from_other self other (prop # ps) =
     bindE (getattr other prop) (\<lambda>v.
     bindE (setattr_raise self prop v) (\<lambda>self'.
     init_from_other self' other ps))"

text \<open>\<^verbatim>\<open>for prop in self.propnames: setattr(self, prop, None)\<close>\<close>

fun init_to_None :: "pyobj \<Rightarrow> string list \<Rightarrow> error + pyobj" where
  "init_to_None self [] = Inr self"
| "init_to_None self (prop # ps) =
     bindE (setattr_raise self prop PNone) (\<lambda>self'. init_to_None self' ps)"

text \<open>\<^verbatim>\<open>for prop, val in props.iteritems(): setattr(self, prop, val)\<close>\<close>

fun init_from_props :: "pyobj \<Rightarrow> (string \<times> pyval) list \<Rightarrow> error + pyobj" where
  "init_from_props self [] = Inr self"
| "init_from_props self ((prop, val) # ps) =
     bindE (setattr_raise self prop val) (\<lambda>self'. init_from_props self' ps)"

text \<open>
  \<^verbatim>\<open>__init__(self, props=None, other=None)\<close>. \<open>props\<close> is the dict as the list of
  its items in iteration order (\<open>None\<close> and the empty dict are both false);
  \<open>other\<close> is \<open>None\<close> or an instance (an instance is true: the class defines
  neither \<^verbatim>\<open>__nonzero__\<close> nor \<^verbatim>\<open>__len__\<close>). The new instance starts with an
  empty \<^verbatim>\<open>__dict__\<close>. When the two loops over \<^verbatim>\<open>self.propnames\<close> run, the
  instance has no attribute but the flag, so the list they read is that of the class.
\<close>

definition FileMetaData_init ::
  "(string \<times> pyval) list option \<Rightarrow> pyobj option \<Rightarrow> error + pyobj" where
  "FileMetaData_init props other =
     bindE (setattr_raise Map.empty write_protected (PBool False)) (\<lambda>self1.
     bindE (case other of
              Some other' \<Rightarrow> init_from_other self1 other' propnames
            | None \<Rightarrow> init_to_None self1 propnames) (\<lambda>self2.
     bindE (case props of
              Some (p # ps) \<Rightarrow> init_from_props self2 (p # ps)
            | _ \<Rightarrow> Inr self2) (\<lambda>self3.
     setattr_raise self3 write_protected (PBool True))))"

text \<open>
  \<^verbatim>\<open>__getitem__(self, key)\<close>. \<^verbatim>\<open>self.propnames\<close> is an attribute lookup: an
  entry \<^verbatim>\<open>propnames\<close> of the instance takes precedence over the list of the class.
\<close>

definition FileMetaData_getitem :: "pyobj \<Rightarrow> string \<Rightarrow> error + pyval" where
  "FileMetaData_getitem self key =
     bindE (getattr self ''propnames'') (\<lambda>self_propnames.
     bindE (py_in key self_propnames) (\<lambda>found.
     if found then getattr self key else Inl (KeyError key)))"

text \<open>
  A caller that tries a sequence of assignments on an instance, catching what each one
  raises: the outcomes in order and the instance at the end.
\<close>

fun assign_each :: "pyobj \<Rightarrow> (string \<times> pyval) list \<Rightarrow> error option list \<times> pyobj" where
  "assign_each self [] = ([], self)"
| "assign_each self ((key, value) # kvs) =
     (case FileMetaData_setattr self key value of
        (r, self') \<Rightarrow> (case assign_each self' kvs of (rs, self'') \<Rightarrow> (r # rs, self'')))"

text \<open>
  \<^verbatim>\<open>mode_to_str(propdict)\<close>. The argument is used only through \<^verbatim>\<open>d[key]\<close>, so
  it is modelled by its item lookup. The first part is the \<^verbatim>\<open>if/elif\<close> chain that
  appends the file type character.
\<close>

definition mode_type_char :: "(string \<Rightarrow> error + pyval) \<Rightarrow> error + string" where
  "mode_type_char d =
     bindE (d ''is_regular'') (\<lambda>r. if truthy r then Inr ''-'' else
     bindE (d ''is_block_device'') (\<lambda>b. if truthy b then Inr ''b'' else
     bindE (d ''is_character_device'') (\<lambda>c. if truthy c then Inr ''c'' else
     bindE (d ''is_directory'') (\<lambda>dir. if truthy dir then Inr ''d'' else
     bindE (d ''is_symlink'') (\<lambda>l. if truthy l then Inr ''l'' else
     bindE (d ''is_fifo'') (\<lambda>p. if truthy p then Inr ''p'' else
     Inl AssertionError))))))"

text \<open>One \<^verbatim>\<open>if d[key]: chars.append(ch) else: chars.append('-')\<close> block.\<close>

definition mode_perm_char :: "(string \<Rightarrow> error + pyval) \<Rightarrow> string \<Rightarrow> char \<Rightarrow> error + string" where
  "mode_perm_char d key ch = bindE (d key) (\<lambda>v. Inr (if truthy v then [ch] else ''-''))"

text \<open>One execute block, with its special bit (setuid, setgid or sticky).\<close>

definition mode_exec_char ::
  "(string \<Rightarrow> error + pyval) \<Rightarrow> string \<Rightarrow> string \<Rightarrow> char \<Rightarrow> char \<Rightarrow> error + string" where
  "mode_exec_char d xkey skey lower upper =
     bindE (d xkey) (\<lambda>x.
       if truthy x then bindE (d skey) (\<lambda>s. Inr (if truthy s then [lower] else ''x''))
       else bindE (d skey) (\<lambda>s. Inr (if truthy s then [upper] else ''-'')))"

definition mode_to_str :: "(string \<Rightarrow> error + pyval) \<Rightarrow> error + string" where
  "mode_to_str d =
     bindE (mode_type_char d) (\<lambda>chars.
     bindE (d ''is_symlink'') (\<lambda>l.
       if truthy l then Inr (chars @ ''rwxr-xr-x'') else
     bindE (mode_perm_char d ''user_read'' CHR ''r'') (\<lambda>c1.
     bindE (mode_perm_char d ''user_write'' CHR ''w'') (\<lambda>c2.
     bindE (mode_exec_char d ''user_execute'' ''is_setuid'' CHR ''s'' CHR ''S'') (\<lambda>c3.
     bindE (mode_perm_char d ''group_read'' CHR ''r'') (\<lambda>c4.
     bindE (mode_perm_char d ''group_write'' CHR ''w'') (\<lambda>c5.
     bindE (mode_exec_char d ''group_execute'' ''is_setgid'' CHR ''s'' CHR ''S'') (\<lambda>c6.
     bindE (mode_perm_char d ''other_read'' CHR ''r'') (\<lambda>c7.
     bindE (mode_perm_char d ''other_write'' CHR ''w'') (\<lambda>c8.
     bindE (mode_exec_char d ''other_execute'' ''is_sticky'' CHR ''t'' CHR ''T'') (\<lambda>c9.
     Inr (chars @ c1 @ c2 @ c3 @ c4 @ c5 @ c6 @ c7 @ c8 @ c9))))))))))))"

text \<open>
  An instance describes a file type other than a symbolic link when its
  \<^verbatim>\<open>is_symlink\<close> is false and one of the other five type attributes is true.
\<close>

definition attr_true :: "pyobj \<Rightarrow> string \<Rightarrow> bool" where
  "attr_true self key = (case self key of None \<Rightarrow> False | Some v \<Rightarrow> truthy v)"

definition non_symlink_type :: "pyobj \<Rightarrow> bool" where
  "non_symlink_type self =
     (\<not> attr_true self ''is_symlink'' \<and>
      (attr_true self ''is_regular'' \<or> attr_true self ''is_block_device'' \<or>
       attr_true self ''is_character_device'' \<or> attr_true self ''is_directory'' \<or>
       attr_true self ''is_fifo''))"

section \<open>commands.py: the skip-blocks file of persist\<close>

text \<open>
  \<^verbatim>\<open>str.strip()\<close> removes leading and trailing whitespace: space, tab, newline,
  carriage return, vertical tab and form feed.
\<close>

definition py_isspace :: "char \<Rightarrow> bool" where
  "py_isspace c = (of_char c \<in> {32, 9, 10, 13, 11, 12 :: nat})"

definition strip :: "string \<Rightarrow> string" where
  "strip s = rev (dropWhile py_isspace (rev (dropWhile py_isspace s)))"

text \<open>
  The loop over \<^verbatim>\<open>f.readlines()\<close> in \<^verbatim>\<open>persist\<close>. Its state is the local
  \<^verbatim>\<open>alg\<close>, unbound until a line of \<^verbatim>\<open>512/4\<close> characters has been seen, and the
  list \<^verbatim>\<open>uploaded\<close>. Appending \<^verbatim>\<open>(alg, hash)\<close> with \<^verbatim>\<open>alg\<close> unbound raises.
\<close>

fun skip_blocks_loop ::
  "string list \<Rightarrow> string option \<times> (string \<times> string) list
     \<Rightarrow> error + string option \<times> (string \<times> string) list" where
  "skip_blocks_loop [] st = Inr st"
| "skip_blocks_loop (line # rest) (alg, uploaded) =
     (let hash = strip line;
          alg' = (if int (length hash) = 512 div 4 then Some ''sha512'' else alg)
      in case alg' of
           None \<Rightarrow> Inl (UnboundLocalError ''alg'')
         | Some a \<Rightarrow> skip_blocks_loop rest (alg', uploaded @ [(a, hash)]))"

text \<open>
  The first part of \<^verbatim>\<open>persist\<close>: \<^verbatim>\<open>uploaded\<close> after the \<^verbatim>\<open>try\<close> block. The
  argument is the list of lines of the skip-blocks file, or \<open>None\<close> when the option is
  not set: \<^verbatim>\<open>get_required()\<close> then raises \<^verbatim>\<open>RequiredOptionMissingError\<close>, which is
  caught and leaves \<^verbatim>\<open>uploaded\<close> empty.
\<close>

definition persist_skip_blocks :: "string list option \<Rightarrow> error + (string \<times> string) list" where
  "persist_skip_blocks file =
     (case file of
        None \<Rightarrow> Inr []
      | Some lines \<Rightarrow>
          (case skip_blocks_loop lines (None, []) of
             Inl e \<Rightarrow> Inl e
           | Inr (alg, uploaded) \<Rightarrow> Inr uploaded))"

section \<open>commands.py: list_orphans\<close>

text \<open>
  \<^verbatim>\<open>flatten(z)\<close> is \<^verbatim>\<open>reduce(lambda x,y: x + y, z)\<close>: without an initial value,
  \<^verbatim>\<open>reduce\<close> raises \<^verbatim>\<open>TypeError\<close> on an empty sequence.
\<close>

definition flatten :: "'a list list \<Rightarrow> error + 'a list" where
  "flatten z = (case z of [] \<Rightarrow> Inl TypeError | x # xs \<Rightarrow> Inr (foldl (@) x xs))"

text \<open>
  A manifest is a list of entries \<^verbatim>\<open>(name, attr, sums)\<close>, the sums being
  \<^verbatim>\<open>(algorithm, hash)\<close> pairs. \<^verbatim>\<open>get_all_blockhashes(mfs, unique)\<close>:
  \<^verbatim>\<open>list(set(ret))\<close> keeps one copy of each element, in an order Python does not
  specify (here that of the first occurrences).
\<close>

type_synonym 'm manifest_entry = "string \<times> 'm \<times> (string \<times> string) list"

definition get_all_blockhashes ::
  "'m manifest_entry list list \<Rightarrow> bool \<Rightarrow> error + (string \<times> string) list" where
  "get_all_blockhashes mfs unique =
     bindE (flatten mfs) (\<lambda>entries.
     bindE (flatten (map (\<lambda>x. snd (snd x)) entries)) (\<lambda>ret.
     Inr (if unique then remdups ret else ret)))"

text \<open>
  \<^verbatim>\<open>labels,mfs = zip(*lmfs)\<close>: for a non-empty list of pairs, the list of first
  components and the list of second components; for the empty list \<^verbatim>\<open>zip()\<close> is
  empty and the unpacking raises \<^verbatim>\<open>ValueError\<close>.
\<close>

definition unzip_pairs :: "('a \<times> 'b) list \<Rightarrow> error + 'a list \<times> 'b list" where
  "unzip_pairs lmfs = (if lmfs = [] then Inl ValueError else Inr (map fst lmfs, map snd lmfs))"

text \<open>
  \<^verbatim>\<open>list_orphans\<close>, from the listing \<^verbatim>\<open>all_blocks\<close> of the data backend and the
  labelled manifests \<^verbatim>\<open>lmfs\<close> read from the manifest backend, to the lines it
  prints. The membership test compares the tuple \<^verbatim>\<open>(algo, hash)\<close> with the elements
  of \<^verbatim>\<open>all_blocks\<close>, which are strings.
\<close>

definition list_orphans ::
  "string list \<Rightarrow> (string \<times> 'm manifest_entry list) list \<Rightarrow> error + string list" where
  "list_orphans all_blocks lmfs =
     bindE (unzip_pairs lmfs) (\<lambda>(labels, mfs).
     bindE (get_all_blockhashes mfs False) (\<lambda>mf_blocks.
     Inr (filter (\<lambda>hash. PTuple [PStr ''sha512'', PStr hash] \<notin> set (map PStr all_blocks))
            all_blocks)))"

text \<open>
  What the command is documented to list (\<^verbatim>\<open>'List blocks that are not in any
  manifest'\<close>): the names of the data backend that are no block of any manifest.
\<close>

definition orphans_spec ::
  "string list \<Rightarrow> (string \<times> 'm manifest_entry list) list \<Rightarrow> string list" where
  "orphans_spec all_blocks lmfs =
     filter (\<lambda>hash. (''sha512'', hash) \<notin> (\<Union>mf \<in> set (map snd lmfs). \<Union>e \<in> set mf. set (snd (snd e))))
       all_blocks"

section \<open>backend.py and gpgcrypto.py: backends and wrappers\<close>

text \<open>
  A backend object, as its four methods. A method takes the list of its positional
  arguments and the state of the underlying store, and returns what it returns or
  raises together with the state afterwards. A call with the wrong number of arguments
  raises \<^verbatim>\<open>TypeError\<close>.
\<close>

record 'st backend =
  be_put :: "pyval list \<Rightarrow> 'st \<Rightarrow> (error + pyval) \<times> 'st"
  be_get :: "pyval list \<Rightarrow> 'st \<Rightarrow> (error + pyval) \<times> 'st"
  be_list :: "pyval list \<Rightarrow> 'st \<Rightarrow> (error + pyval) \<times> 'st"
  be_delete :: "pyval list \<Rightarrow> 'st \<Rightarrow> (error + pyval) \<times> 'st"

text \<open>The methods of the base class \<^verbatim>\<open>Backend\<close>, by their number of parameters.\<close>

definition not_implemented :: "nat \<Rightarrow> pyval list \<Rightarrow> 'st \<Rightarrow> (error + pyval) \<times> 'st" where
  "not_implemented n args st =
     (if length args \<noteq> n then (Inl TypeError, st) else (Inl NotImplementedError, st))"

definition Backend :: "'st backend" where
  "Backend = \<lparr> be_put = not_implemented 2, be_get = not_implemented 1,
               be_list = not_implemented 0, be_delete = not_implemented 1 \<rparr>"

text \<open>
  \<^verbatim>\<open>BackendWrapper(next)\<close> defines \<^verbatim>\<open>put\<close>, \<^verbatim>\<open>get\<close> and \<^verbatim>\<open>list\<close>, each passing
  \<^verbatim>\<open>*args\<close> on, and inherits \<^verbatim>\<open>delete\<close> from \<^verbatim>\<open>Backend\<close>. Its \<^verbatim>\<open>get\<close> calls
  \<^verbatim>\<open>self.next.put\<close>.
\<close>

definition BackendWrapper :: "'st backend \<Rightarrow> 'st backend" where
  "BackendWrapper next' =
     \<lparr> be_put = (\<lambda>args. be_put next' args),
       be_get = (\<lambda>args. be_put next' args),
       be_list = (\<lambda>args. be_list next' args),
       be_delete = be_delete Backend \<rparr>"

text \<open>
  Modelled from the spec: the in-memory backend (\<^verbatim>\<open>shastity.backends.memorybackend\<close>,
  which the tests instantiate, is not among the sources). It follows the Backend
  contract: \<^verbatim>\<open>put(name, data)\<close> stores, \<^verbatim>\<open>get(name)\<close> returns the stored bytes
  or fails when the name is absent, \<^verbatim>\<open>list()\<close> returns the names, \<^verbatim>\<open>delete(name)\<close>
  removes the name. The store is the list of (name, data) pairs in order of first
  storage.
\<close>

definition MemoryBackend :: "(string \<times> string) list backend" where
  "MemoryBackend =
     \<lparr> be_put = (\<lambda>args st. case args of
          [PStr name, PStr data] \<Rightarrow>
            (Inr PNone, if name \<in> fst ` set st
                        then map (\<lambda>(n, d). if n = name then (n, data) else (n, d)) st
                        else st @ [(name, data)])
        | _ \<Rightarrow> (Inl TypeError, st)),
       be_get = (\<lambda>args st. case args of
          [PStr name] \<Rightarrow>
            (case map_of st name of
               None \<Rightarrow> (Inl (KeyError name), st)
             | Some data \<Rightarrow> (Inr (PStr data), st))
        | _ \<Rightarrow> (Inl TypeError, st)),
       be_list = (\<lambda>args st. case args of
          [] \<Rightarrow> (Inr (PList (map (\<lambda>(n, d). PStr n) st)), st)
        | _ \<Rightarrow> (Inl TypeError, st)),
       be_delete = (\<lambda>args st. case args of
          [PStr name] \<Rightarrow> (Inr PNone, filter (\<lambda>(n, d). n \<noteq> name) st)
        | _ \<Rightarrow> (Inl TypeError, st)) \<rparr>"

section \<open>gpgcrypto.py: the library functions the name wrapper calls\<close>

text \<open>
  \<^verbatim>\<open>struct.pack("!l", n)\<close>: the four bytes of a signed 32-bit integer, most
  significant first; a value out of range raises \<^verbatim>\<open>struct.error\<close>.
  \<^verbatim>\<open>struct.unpack("!l", s)[0]\<close> reads them back and raises unless \<^verbatim>\<open>s\<close> has
  exactly four bytes.
\<close>

definition struct_pack_l :: "int \<Rightarrow> error + string" where
  "struct_pack_l n =
     (if n < - (2 ^ 31) \<or> 2 ^ 31 \<le> n then Inl StructError
      else Inr [char_of (n div 2 ^ 24), char_of (n div 2 ^ 16), char_of (n div 2 ^ 8), char_of n])"

definition struct_unpack_l :: "string \<Rightarrow> error + int" where
  "struct_unpack_l s =
     (case s of
        [b0, b1, b2, b3] \<Rightarrow>
          (let u = ((of_char b0 * 256 + of_char b1) * 256 + of_char b2) * 256 + of_char b3 :: int
           in Inr (if 2 ^ 31 \<le> u then u - 2 ^ 32 else u))
      | _ \<Rightarrow> Inl StructError)"

text \<open>\<^verbatim>\<open>"%.2x" % (ord(x))\<close>: the byte as two lowercase hexadecimal digits.\<close>

definition hexdigit :: "nat \<Rightarrow> char" where
  "hexdigit n = ''0123456789abcdef'' ! n"

definition hex2 :: "char \<Rightarrow> string" where
  "hex2 x = [hexdigit (of_char x div 16), hexdigit (of_char x mod 16)]"

text \<open>
  \<^verbatim>\<open>re.findall('(..)', cfn)\<close>: the successive non-overlapping pairs of characters,
  neither of them a newline (which \<^verbatim>\<open>.\<close> does not match); where no pair starts,
  the search moves on by one character.
\<close>

fun findall2 :: "string \<Rightarrow> string list" where
  "findall2 (a # b # rest) =
     (if a \<noteq> CHR 0x0A \<and> b \<noteq> CHR 0x0A then [a, b] # findall2 rest
      else findall2 (b # rest))"
| "findall2 _ = []"

text \<open>
  \<^verbatim>\<open>int(x, 16)\<close> on a string: surrounding whitespace is ignored, then an optional
  sign and an optional \<^verbatim>\<open>0x\<close> prefix, then at least one hexadecimal digit and
  nothing else; otherwise \<^verbatim>\<open>ValueError\<close>. \<^verbatim>\<open>chr(n)\<close> raises \<^verbatim>\<open>ValueError\<close>
  outside \<^verbatim>\<open>range(256)\<close>.
\<close>

definition hexval :: "char \<Rightarrow> nat option" where
  "hexval c =
     (let n = of_char c :: nat
      in if 48 \<le> n \<and> n \<le> 57 then Some (n - 48)
         else if 97 \<le> n \<and> n \<le> 102 then Some (n - 87)
         else if 65 \<le> n \<and> n \<le> 70 then Some (n - 55)
         else None)"

fun hexnum :: "string \<Rightarrow> nat \<Rightarrow> nat option" where
  "hexnum [] a = Some a"
| "hexnum (c # cs) a = (case hexval c of None \<Rightarrow> None | Some v \<Rightarrow> hexnum cs (16 * a + v))"

definition py_int16 :: "string \<Rightarrow> error + int" where
  "py_int16 x =
     (let t = strip x;
          (sign, u) = (case t of
                         [] \<Rightarrow> (1, t)
                       | c # r \<Rightarrow> if c = CHR ''+'' then (1, r)
                                  else if c = CHR ''-'' then (- 1, r) else (1, t));
          w = (if take 2 u = ''0x'' \<or> take 2 u = ''0X'' then drop 2 u else u)
      in if w = [] then Inl ValueError
         else (case hexnum w 0 of
                 None \<Rightarrow> Inl ValueError
               | Some v \<Rightarrow> Inr (sign * int v)))"

definition py_chr :: "int \<Rightarrow> error + char" where
  "py_chr n = (if 0 \<le> n \<and> n < 256 then Inr (char_of n) else Inl ValueError)"

text \<open>A list comprehension whose element expression may raise.\<close>

fun mapE :: "('a \<Rightarrow> error + 'b) \<Rightarrow> 'a list \<Rightarrow> error + 'b list" where
  "mapE f [] = Inr []"
| "mapE f (x # xs) = bindE (f x) (\<lambda>y. bindE (mapE f xs) (\<lambda>ys. Inr (y # ys)))"

text \<open>\<^verbatim>\<open>''.join([chr(int(x,16)) for x in re.findall('(..)', cfn)])\<close>\<close>

definition hex_decode :: "string \<Rightarrow> error + string" where
  "hex_decode cfn = mapE (\<lambda>x. bindE (py_int16 x) py_chr) (findall2 cfn)"

text \<open>
  The cipher of \<^verbatim>\<open>Crypto.Cipher.AES\<close> is a parameter: for a key and a text of whole
  blocks, the CBC encryption and decryption with the default initialisation vector.
  \<^verbatim>\<open>AES.new\<close> accepts keys of 16, 24 or 32 bytes; \<^verbatim>\<open>encrypt\<close> and
  \<^verbatim>\<open>decrypt\<close> accept texts whose length is a multiple of 16.
\<close>

record aes_cbc =
  cbc_encrypt :: "string \<Rightarrow> string \<Rightarrow> string"
  cbc_decrypt :: "string \<Rightarrow> string \<Rightarrow> string"

definition AES_new :: "string \<Rightarrow> error + string" where
  "AES_new key = (if length key \<in> {16, 24, 32} then Inr key else Inl ValueError)"

definition crypt_encrypt :: "aes_cbc \<Rightarrow> string \<Rightarrow> string \<Rightarrow> error + string" where
  "crypt_encrypt aes crypt s =
     (if length s mod 16 \<noteq> 0 then Inl ValueError else Inr (cbc_encrypt aes crypt s))"

definition crypt_decrypt :: "aes_cbc \<Rightarrow> string \<Rightarrow> string \<Rightarrow> error + string" where
  "crypt_decrypt aes crypt s =
     (if length s mod 16 \<noteq> 0 then Inl ValueError else Inr (cbc_decrypt aes crypt s))"

text \<open>
  The \<^verbatim>\<open>gpg\<close> process is a parameter too: from the extra options, the passphrase
  and the input to the exit status and the output.
\<close>

type_synonym gpg = "string \<Rightarrow> string \<Rightarrow> string \<Rightarrow> nat \<times> string"

text \<open>
  Modelled from the spec: \<^verbatim>\<open>hash.make_hasher\<close> (the module \<^verbatim>\<open>shastity.hash\<close> is
  not among the sources). A fingerprint is the pair of the algorithm and the digest,
  and the digest is the hash in hexadecimal: block names are these digests, the
  skip-blocks file holds them as text, one per line, and \<^verbatim>\<open>persist\<close> recognises a
  sha512 digest by its length of \<^verbatim>\<open>512/4\<close> characters. The hash function itself,
  from a byte string to the 64 bytes of its SHA-512 hash, is the parameter \<open>sha512_hash\<close>.
\<close>

definition make_hasher_sha512 :: "(string \<Rightarrow> string) \<Rightarrow> string \<Rightarrow> string \<times> string" where
  "make_hasher_sha512 sha512_hash s = (''sha512'', concat (map hex2 (sha512_hash s)))"

section \<open>gpgcrypto.py: encDec, DataCryptoGPG and NameCrypto\<close>

definition encDec :: "gpg \<Rightarrow> string \<Rightarrow> string \<Rightarrow> string \<Rightarrow> error + string" where
  "encDec gpg key data extra =
     (case gpg extra key data of
        (status, ret) \<Rightarrow> if status \<noteq> 0 then Inl (StringException ''GPG failed'') else Inr ret)"

definition enc :: "gpg \<Rightarrow> string \<Rightarrow> string \<Rightarrow> error + string" where
  "enc gpg key data = encDec gpg key data ''-c --force-mdc''"

definition dec :: "gpg \<Rightarrow> string \<Rightarrow> string \<Rightarrow> error + string" where
  "dec gpg key data = encDec gpg key data ''''"

text \<open>
  \<^verbatim>\<open>DataCryptoGPG(next, cryptoKey)\<close> overrides \<^verbatim>\<open>put\<close> and \<^verbatim>\<open>get\<close>; its
  \<^verbatim>\<open>list\<close> and \<^verbatim>\<open>delete\<close> are those of \<^verbatim>\<open>BackendWrapper\<close>.
\<close>

definition DataCryptoGPG :: "gpg \<Rightarrow> 'st backend \<Rightarrow> string \<Rightarrow> 'st backend" where
  "DataCryptoGPG gpg next' cryptoKey =
     \<lparr> be_put = (\<lambda>args st. case args of
          [key, PStr data] \<Rightarrow>
            (case enc gpg cryptoKey data of
               Inl e \<Rightarrow> (Inl e, st)
             | Inr c \<Rightarrow> be_put next' [key, PStr c] st)
        | _ \<Rightarrow> (Inl TypeError, st)),
       be_get = (\<lambda>args st. case args of
          [key] \<Rightarrow>
            (case be_get next' [key] st of
               (Inl e, st') \<Rightarrow> (Inl e, st')
             | (Inr (PStr c), st') \<Rightarrow>
                 (case dec gpg cryptoKey c of
                    Inl e \<Rightarrow> (Inl e, st')
                  | Inr d \<Rightarrow> (Inr (PStr d), st'))
             | (Inr _, st') \<Rightarrow> (Inl TypeError, st'))
        | _ \<Rightarrow> (Inl TypeError, st)),
       be_list = be_list (BackendWrapper next'),
       be_delete = be_delete (BackendWrapper next') \<rparr>"

text \<open>
  \<^verbatim>\<open>NameCrypto.__enc\<close> and \<^verbatim>\<open>NameCrypto.__dec\<close>; the argument \<open>cryptoKey\<close> is
  the attribute \<^verbatim>\<open>self.cryptoKey\<close>.
\<close>

definition NameCrypto_enc :: "aes_cbc \<Rightarrow> string \<Rightarrow> string \<Rightarrow> error + string" where
  "NameCrypto_enc aes cryptoKey name =
     bindE (AES_new (take 16 cryptoKey)) (\<lambda>crypt.
     bindE (struct_pack_l (int (length name))) (\<lambda>p.
     let s = p @ name;
         s' = (if length s mod 16 \<noteq> 0 then s @ replicate (16 - length s mod 16) CHR '' '' else s)
     in bindE (crypt_encrypt aes crypt s') (\<lambda>ret.
        Inr (concat (map hex2 ret)))))"

definition wrong_key_message :: string where
  "wrong_key_message = ''TODO: I don'' @ [CHR 0x27] @ ''t think your crypto key is correct''"

definition NameCrypto_dec :: "aes_cbc \<Rightarrow> string \<Rightarrow> string \<Rightarrow> error + string" where
  "NameCrypto_dec aes cryptoKey cfn =
     bindE (AES_new (take 16 cryptoKey)) (\<lambda>crypt.
     bindE (hex_decode cfn) (\<lambda>s.
     bindE (crypt_decrypt aes crypt s) (\<lambda>dec'.
     bindE (struct_unpack_l (take 4 dec')) (\<lambda>l.
     if \<not> (0 < l \<and> l < int (length dec')) then Inl (StringException wrong_key_message)
     else Inr (take (nat l) (drop 4 dec'))))))"

text \<open>
  \<^verbatim>\<open>NameCrypto(next, cryptoKey)\<close>. The constructor stores component \<^verbatim>\<open>[1]\<close> of
  what \<^verbatim>\<open>hash.make_hasher('sha512')\<close> returns on the secret; that hasher is the
  argument \<open>hasher\<close>. The class overrides \<^verbatim>\<open>put\<close>, \<^verbatim>\<open>get\<close> and \<^verbatim>\<open>list\<close>.
\<close>

definition NameCrypto ::
  "aes_cbc \<Rightarrow> (string \<Rightarrow> string \<times> string) \<Rightarrow> 'st backend \<Rightarrow> string \<Rightarrow> 'st backend" where
  "NameCrypto aes hasher next' cryptoKey =
     (let self_cryptoKey = snd (hasher cryptoKey) in
      \<lparr> be_put = (\<lambda>args st. case args of
           [PStr key, data] \<Rightarrow>
             (case NameCrypto_enc aes self_cryptoKey key of
                Inl e \<Rightarrow> (Inl e, st)
              | Inr c \<Rightarrow> be_put next' [PStr c, data] st)
         | _ \<Rightarrow> (Inl TypeError, st)),
        be_get = (\<lambda>args st. case args of
           [PStr key] \<Rightarrow>
             (case NameCrypto_enc aes self_cryptoKey key of
                Inl e \<Rightarrow> (Inl e, st)
              | Inr c \<Rightarrow> be_get next' [PStr c] st)
         | _ \<Rightarrow> (Inl TypeError, st)),
        be_list = (\<lambda>args st. case args of
           [] \<Rightarrow>
             (case be_list next' [] st of
                (Inl e, st') \<Rightarrow> (Inl e, st')
              | (Inr (PList xs), st') \<Rightarrow>
                  (case mapE (\<lambda>x. case x of
                                     PStr c \<Rightarrow> NameCrypto_dec aes self_cryptoKey c
                                   | _ \<Rightarrow> Inl TypeError) xs of
                     Inl e \<Rightarrow> (Inl e, st')
                   | Inr names \<Rightarrow> (Inr (PList (map PStr names)), st'))
              | (Inr _, st') \<Rightarrow> (Inl TypeError, st'))
         | _ \<Rightarrow> (Inl TypeError, st)),
        be_delete = be_delete (BackendWrapper next') \<rparr>)"

section \<open>commands.py: get_backend_factory\<close>

text \<open>
  \<^verbatim>\<open>type,ident = uri.split(':',1)\<close> raises \<^verbatim>\<open>ValueError\<close> when the URI has no
  colon. The S3 backend is a parameter; \<open>crypto_key\<close> is the option
  \<^verbatim>\<open>crypto-key\<close>, whose \<^verbatim>\<open>get_required()\<close> raises when it is not set. The result
  is the backend that calling the returned factory builds.
\<close>

definition get_backend_factory ::
  "aes_cbc \<Rightarrow> gpg \<Rightarrow> (string \<Rightarrow> string \<times> string) \<Rightarrow> (string \<Rightarrow> 'st backend)
     \<Rightarrow> string \<Rightarrow> string option \<Rightarrow> error + 'st backend" where
  "get_backend_factory aes gpg hasher S3Backend uri crypto_key =
     (if CHR '':'' \<notin> set uri then Inl ValueError
      else let type' = takeWhile (\<lambda>c. c \<noteq> CHR '':'') uri;
               ident = tl (dropWhile (\<lambda>c. c \<noteq> CHR '':'') uri)
           in if type' = ''s3'' then
                (case crypto_key of
                   None \<Rightarrow> Inl RequiredOptionMissingError
                 | Some k \<Rightarrow>
                     Inr (NameCrypto aes hasher (DataCryptoGPG gpg (S3Backend ident) k) k))
              else Inl NotImplementedError)"

section \<open>Stand-ins for the cipher, gpg and the hasher\<close>

text \<open>
  To run the wrappers on concrete inputs the three parameters need values. The
  stand-ins for the cipher and for gpg leave the bytes as they are; they satisfy what
  the proofs below assume of the real ones (decryption inverts encryption and keeps the
  length). The stand-in for the hash function pads or cuts its input to 64 bytes.
\<close>

definition plain_cipher :: aes_cbc where
  "plain_cipher = \<lparr> cbc_encrypt = (\<lambda>key s. s), cbc_decrypt = (\<lambda>key s. s) \<rparr>"

definition plain_gpg :: gpg where
  "plain_gpg extra key data = (0, data)"

definition plain_sha512 :: "string \<Rightarrow> string" where
  "plain_sha512 s =
     take 64 (s @ ''0000000000000000000000000000000000000000000000000000000000000000'')"

definition plain_hasher :: "string \<Rightarrow> string \<times> string" where
  "plain_hasher = make_hasher_sha512 plain_sha512"

section \<open>Auxiliary definitions for the proofs\<close>

text \<open>
  The items of the \<^verbatim>\<open>props\<close> argument (none for \<^verbatim>\<open>None\<close>), and the value the
  constructor gives a property that \<^verbatim>\<open>props\<close> does not mention: that of
  \<^verbatim>\<open>other\<close>, or \<^verbatim>\<open>None\<close>. \<open>construct_assign_read\<close> is a caller that constructs
  an instance, tries a sequence of assignments on it and then reads the instance's
  entries for some names: the outcomes of the assignments and the entries read.
  \<open>construct_getitem\<close> and \<open>construct_mode_to_str\<close> construct an instance and call
  \<^verbatim>\<open>__getitem__\<close> or \<^verbatim>\<open>mode_to_str\<close> on it. \<open>type_attrs\<close> are the six file type
  attributes that \<^verbatim>\<open>mode_to_str\<close> reads first.
\<close>

definition dict_items :: "(string \<times> pyval) list option \<Rightarrow> (string \<times> pyval) list" where
  "dict_items props = (case props of None \<Rightarrow> [] | Some ps \<Rightarrow> ps)"

definition construct_assign_read ::
  "(string \<times> pyval) list option \<Rightarrow> pyobj option \<Rightarrow> (string \<times> pyval) list \<Rightarrow> string list
     \<Rightarrow> error + error option list \<times> pyval option list" where
  "construct_assign_read props other kvs keys =
     (case FileMetaData_init props other of
        Inl e \<Rightarrow> Inl e
      | Inr self \<Rightarrow> Inr (fst (assign_each self kvs), map (snd (assign_each self kvs)) keys))"

definition type_attrs :: "string list" where
  "type_attrs = [''is_regular'', ''is_block_device'', ''is_character_device'',
                 ''is_directory'', ''is_symlink'', ''is_fifo'']"

definition construct_getitem ::
  "(string \<times> pyval) list option \<Rightarrow> pyobj option \<Rightarrow> string \<Rightarrow> error + pyval" where
  "construct_getitem props other key =
     bindE (FileMetaData_init props other) (\<lambda>self. FileMetaData_getitem self key)"

definition construct_mode_to_str ::
  "(string \<times> pyval) list option \<Rightarrow> pyobj option \<Rightarrow> error + string" where
  "construct_mode_to_str props other =
     bindE (FileMetaData_init props other) (\<lambda>self. mode_to_str (FileMetaData_getitem self))"

definition base_value :: "pyobj option \<Rightarrow> string \<Rightarrow> pyval" where
  "base_value other p = (case other of Some other' \<Rightarrow> the (other' p) | None \<Rightarrow> PNone)"

text \<open>
  The name encryption in the words of its description: the length prefix is the length
  as four bytes in network byte order; the plaintext is padded (with spaces) up to a
  multiple of the block size of 16 bytes; the key is the first 16 bytes of the digest;
  the ciphertext is rendered as two lowercase hexadecimal digits per byte.
  \<open>cipher_inverts\<close> and \<open>gpg_inverts\<close> say of the two parameters that decryption
  undoes encryption; \<open>big_endian_value\<close> reads bytes as a number, most significant
  byte first.
\<close>

definition length_prefix :: "nat \<Rightarrow> string" where
  "length_prefix n = map (\<lambda>i. char_of (n div 256 ^ i)) [3, 2, 1, 0]"

definition pad_to_block :: "string \<Rightarrow> string" where
  "pad_to_block s = s @ replicate ((16 - length s mod 16) mod 16) CHR '' ''"

definition encrypt_name_spec :: "aes_cbc \<Rightarrow> string \<Rightarrow> string \<Rightarrow> string" where
  "encrypt_name_spec aes digest name =
     concat (map hex2 (cbc_encrypt aes (take 16 digest)
                         (pad_to_block (length_prefix (length name) @ name))))"

definition cipher_inverts :: "aes_cbc \<Rightarrow> string \<Rightarrow> bool" where
  "cipher_inverts aes key =
     (\<forall>s. length s mod 16 = 0 \<longrightarrow>
            length (cbc_encrypt aes key s) = length s \<and>
            cbc_decrypt aes key (cbc_encrypt aes key s) = s)"

definition gpg_inverts :: "gpg \<Rightarrow> string \<Rightarrow> bool" where
  "gpg_inverts gpg key =
     (\<forall>d c. gpg ''-c --force-mdc'' key d = (0, c) \<longrightarrow> gpg [] key c = (0, d))"

definition big_endian_value :: "string \<Rightarrow> nat" where
  "big_endian_value s = foldl (\<lambda>a c. 256 * a + of_char c) 0 s"

section \<open>Properties of uniq_c\<close>

lemma rl_expand_append: "rl_expand (r @ s) = rl_expand r @ rl_expand s"
  by (simp add: rl_expand_def)

lemma rl_expand_single: "rl_expand [(c, v)] = replicate (nat c) v"
  by (simp add: rl_expand_def)

lemma replicate_nat_Suc: "1 \<le> c \<Longrightarrow> replicate (nat (c + 1)) v = replicate (nat c) v @ [v]"
proof -
  assume "1 \<le> c"
  then have "nat (c + 1) = Suc (nat c)" by simp
  then show ?thesis by (simp add: replicate_append_same)
qed

lemma uniq_c_loop_running:
  assumes "1 \<le> c"
  shows "\<exists>c' l' ret'.
           uniq_c_loop xs (False, c, Some l, ret) = Inr (False, c', Some l', ret')
         \<and> 1 \<le> c'
         \<and> rl_expand (ret' @ [(c', l')]) = rl_expand (ret @ [(c, l)]) @ xs
         \<and> sum_list (map fst (ret' @ [(c', l')]))
             = sum_list (map fst (ret @ [(c, l)])) + int (length xs)
         \<and> (list_all (\<lambda>p. 1 \<le> fst p) ret \<longrightarrow> list_all (\<lambda>p. 1 \<le> fst p) ret')
         \<and> (distinct_adj (map snd (ret @ [(c, l)]))
              \<longrightarrow> distinct_adj (map snd (ret' @ [(c', l')])))"
  using assms
proof (induction xs arbitrary: c l ret)
  case Nil
  then show ?case by simp
next
  case (Cons x xs)
  show ?case
  proof (cases "x = l")
    case True
    have c1: "1 \<le> c + 1" using Cons.prems by simp
    from Cons.IH [OF c1, of l ret] obtain c' l' ret' where
      h: "uniq_c_loop xs (False, c + 1, Some l, ret) = Inr (False, c', Some l', ret')"
         "1 \<le> c'"
         "rl_expand (ret' @ [(c', l')]) = rl_expand (ret @ [(c + 1, l)]) @ xs"
         "sum_list (map fst (ret' @ [(c', l')]))
            = sum_list (map fst (ret @ [(c + 1, l)])) + int (length xs)"
         "list_all (\<lambda>p. 1 \<le> fst p) ret \<longrightarrow> list_all (\<lambda>p. 1 \<le> fst p) ret'"
         "distinct_adj (map snd (ret @ [(c + 1, l)]))
            \<longrightarrow> distinct_adj (map snd (ret' @ [(c', l')]))"
      by blast
    have e: "rl_expand (ret @ [(c + 1, l)]) = rl_expand (ret @ [(c, l)]) @ [x]"
      using Cons.prems True
      by (simp add: rl_expand_def replicate_nat_Suc)
    show ?thesis
      using h True e by (intro exI [of _ c'] exI [of _ l'] exI [of _ ret']) simp
  next
    case False
    from Cons.IH [of 1 x "ret @ [(c, l)]"] obtain c' l' ret' where
      h: "uniq_c_loop xs (False, 1, Some x, ret @ [(c, l)]) = Inr (False, c', Some l', ret')"
         "1 \<le> c'"
         "rl_expand (ret' @ [(c', l')]) = rl_expand ((ret @ [(c, l)]) @ [(1, x)]) @ xs"
         "sum_list (map fst (ret' @ [(c', l')]))
            = sum_list (map fst ((ret @ [(c, l)]) @ [(1, x)])) + int (length xs)"
         "list_all (\<lambda>p. 1 \<le> fst p) (ret @ [(c, l)]) \<longrightarrow> list_all (\<lambda>p. 1 \<le> fst p) ret'"
         "distinct_adj (map snd ((ret @ [(c, l)]) @ [(1, x)]))
            \<longrightarrow> distinct_adj (map snd (ret' @ [(c', l')]))"
      by auto
    have e: "rl_expand ((ret @ [(c, l)]) @ [(1, x)]) = rl_expand (ret @ [(c, l)]) @ [x]"
      by (simp add: rl_expand_def)
    have d: "distinct_adj (map snd (ret @ [(c, l)]))
               \<Longrightarrow> distinct_adj (map snd ((ret @ [(c, l)]) @ [(1, x)]))"
      using False by (simp add: distinct_adj_append_iff)
    show ?thesis
      using h False e d Cons.prems
      by (intro exI [of _ c'] exI [of _ l'] exI [of _ ret']) auto
  qed
qed

text \<open>
  C10. \<^verbatim>\<open>uniq_c\<close> is a run-length encoding: it returns a list of (count, value)
  pairs which, each value repeated count times and the runs concatenated in order,
  give back \<^verbatim>\<open>arr\<close>; the counts sum to \<^verbatim>\<open>len(arr)\<close>, every count is at least 1,
  adjacent pairs carry distinct values, and the empty list is encoded as the empty list.
\<close>

theorem uniq_c_run_length_encoding:
  "\<exists>r. uniq_c arr = Inr r
     \<and> rl_expand r = arr
     \<and> sum_list (map fst r) = int (length arr)
     \<and> list_all (\<lambda>p. 1 \<le> fst p) r
     \<and> distinct_adj (map snd r)
     \<and> uniq_c ([] :: 'a list) = Inr []"
proof (cases arr)
  case Nil
  then show ?thesis by (simp add: uniq_c_def rl_expand_def)
next
  case (Cons x xs)
  from uniq_c_loop_running [of 1 xs x "[]"] obtain c' l' ret' where
    h: "uniq_c_loop xs (False, 1, Some x, []) = Inr (False, c', Some l', ret')"
       "1 \<le> c'"
       "rl_expand (ret' @ [(c', l')]) = rl_expand [(1, x)] @ xs"
       "sum_list (map fst (ret' @ [(c', l')])) = sum_list (map fst [(1 :: int, x)]) + int (length xs)"
       "list_all (\<lambda>p. 1 \<le> fst p) ret'"
       "distinct_adj (map snd (ret' @ [(c', l')]))"
    by auto
  have u: "uniq_c arr = Inr (ret' @ [(c', l')])"
    using Cons h(1) by (simp add: uniq_c_def)
  have e: "uniq_c ([] :: 'a list) = Inr []" by (simp add: uniq_c_def)
  show ?thesis
    unfolding u using h(2-6) Cons e by (simp add: rl_expand_single)
qed

theorem uniq_c_run_length_encoding_witness:
  "uniq_c ''aabccc'' = Inr [(2, CHR ''a''), (1, CHR ''b''), (3, CHR ''c'')]
   \<and> rl_expand [(2, CHR ''a''), (1, CHR ''b''), (3, CHR ''c'')] = ''aabccc''"
  using uniq_c_run_length_encoding [of "''aabccc''"]
  by (simp add: uniq_c_def rl_expand_def)

section \<open>Properties of FileMetaData\<close>


lemma write_protected_private: "startswith_underscore write_protected"
  by (simp add: write_protected_def startswith_underscore_def)

lemma setattr_raise_unlocked:
  assumes "self write_protected = Some wp" "\<not> truthy wp"
  shows "setattr_raise self key value = Inr (self(key \<mapsto> value))"
  using assms by (simp add: setattr_raise_def FileMetaData_setattr_def getattr_def)

lemma setattr_raise_private:
  "startswith_underscore key \<Longrightarrow> setattr_raise self key value = Inr (self(key \<mapsto> value))"
  by (simp add: setattr_raise_def FileMetaData_setattr_def)

lemma init_from_props_unlocked:
  assumes "self write_protected = Some wp" "\<not> truthy wp"
    and "write_protected \<notin> fst ` set kvs"
  shows "init_from_props self kvs = Inr (self ++ map_of (rev kvs))"
  using assms
proof (induction kvs arbitrary: self)
  case Nil
  then show ?case by simp
next
  case (Cons kv kvs)
  obtain k v where kv: "kv = (k, v)" by (cases kv)
  have ne: "k \<noteq> write_protected" using Cons.prems(3) kv by auto
  have s: "setattr_raise self k v = Inr (self(k \<mapsto> v))"
    using Cons.prems(1,2) by (rule setattr_raise_unlocked)
  have f: "(self(k \<mapsto> v)) write_protected = Some wp"
    using ne Cons.prems(1) by simp
  have r: "init_from_props (self(k \<mapsto> v)) kvs = Inr (self(k \<mapsto> v) ++ map_of (rev kvs))"
  proof (rule Cons.IH)
    show "(self(k \<mapsto> v)) write_protected = Some wp" by (rule f)
    show "\<not> truthy wp" by (rule Cons.prems(2))
    show "write_protected \<notin> fst ` set kvs" using Cons.prems(3) by simp
  qed
  have m: "self(k \<mapsto> v) ++ map_of (rev kvs) = self ++ map_of (rev ((k, v) # kvs))"
    by (rule ext) (simp add: map_add_def split: option.splits)
  have "init_from_props self (kv # kvs) = init_from_props (self(k \<mapsto> v)) kvs"
    unfolding kv by (simp add: bindE_def s)
  also have "\<dots> = Inr (self(k \<mapsto> v) ++ map_of (rev kvs))" by (rule r)
  also have "\<dots> = Inr (self ++ map_of (rev (kv # kvs)))" by (simp only: m kv)
  finally show ?case .
qed


lemma init_to_None_as_props:
  "init_to_None self ps = init_from_props self (map (\<lambda>p. (p, PNone)) ps)"
proof (induction ps arbitrary: self)
  case Nil
  show ?case by simp
next
  case (Cons p ps)
  show ?case by (simp add: bindE_def Cons.IH split: sum.splits)
qed

lemma init_from_other_as_props:
  assumes "set ps \<subseteq> dom other"
  shows "init_from_other self other ps = init_from_props self (map (\<lambda>p. (p, the (other p))) ps)"
  using assms
proof (induction ps arbitrary: self)
  case Nil
  show ?case by simp
next
  case (Cons p ps)
  from Cons.prems obtain v where v: "other p = Some v" by auto
  have sub: "set ps \<subseteq> dom other" using Cons.prems by simp
  show ?case by (simp add: bindE_def getattr_def v Cons.IH [OF sub] split: sum.splits)
qed

lemma write_protected_not_prop: "write_protected \<notin> set propnames"
  by (simp add: write_protected_def propnames_def)

lemma init_base:
  assumes "\<forall>other'. other = Some other' \<longrightarrow> set propnames \<subseteq> dom other'"
  shows "(case other of Some other' \<Rightarrow> init_from_other [write_protected \<mapsto> PBool False] other' propnames
          | None \<Rightarrow> init_to_None [write_protected \<mapsto> PBool False] propnames)
       = Inr ([write_protected \<mapsto> PBool False] ++
              map_of (rev (map (\<lambda>p. (p, case other of Some other' \<Rightarrow> the (other' p) | None \<Rightarrow> PNone)) propnames)))"
proof (cases other)
  case None
  have "write_protected \<notin> fst ` set (map (\<lambda>p. (p, PNone)) propnames)"
    using write_protected_not_prop by (auto simp: image_iff)
  then show ?thesis
    using None by (simp add: init_to_None_as_props init_from_props_unlocked [where wp = "PBool False"])
next
  case (Some other')
  then have sub: "set propnames \<subseteq> dom other'" using assms by simp
  have "write_protected \<notin> fst ` set (map (\<lambda>p. (p, the (other' p))) propnames)"
    using write_protected_not_prop by (auto simp: image_iff)
  then show ?thesis
    using Some by (simp add: init_from_other_as_props [OF sub] init_from_props_unlocked [where wp = "PBool False"])
qed


lemma init_props_step:
  assumes "self write_protected = Some (PBool False)"
    and "write_protected \<notin> fst ` set (dict_items props)"
  shows "(case props of Some (p # ps) \<Rightarrow> init_from_props self (p # ps) | _ \<Rightarrow> Inr self)
           = Inr (self ++ map_of (rev (dict_items props)))"
proof (cases props)
  case None
  then show ?thesis by (simp add: dict_items_def)
next
  case (Some ps)
  show ?thesis
  proof (cases ps)
    case Nil
    then show ?thesis using Some by (simp add: dict_items_def)
  next
    case (Cons q qs)
    have "init_from_props self (q # qs) = Inr (self ++ map_of (rev (q # qs)))"
      using assms Some Cons
      by (intro init_from_props_unlocked [where wp = "PBool False"]) (simp_all add: dict_items_def)
    then show ?thesis using Some Cons by (simp add: dict_items_def)
  qed
qed

lemma FileMetaData_init_result:
  assumes o: "\<forall>other'. other = Some other' \<longrightarrow> set propnames \<subseteq> dom other'"
    and p: "write_protected \<notin> fst ` set (dict_items props)"
  shows "FileMetaData_init props other =
           Inr (([write_protected \<mapsto> PBool False]
                  ++ map_of (rev (map (\<lambda>p. (p, base_value other p)) propnames))
                  ++ map_of (rev (dict_items props)))(write_protected \<mapsto> PBool True))"
proof -
  let ?s1 = "[write_protected \<mapsto> PBool False]"
  let ?s2 = "?s1 ++ map_of (rev (map (\<lambda>p. (p, base_value other p)) propnames))"
  let ?s3 = "?s2 ++ map_of (rev (dict_items props))"
  have a: "setattr_raise Map.empty write_protected (PBool False) = Inr ?s1"
    by (simp add: setattr_raise_private write_protected_private)
  have b: "(case other of Some other' \<Rightarrow> init_from_other ?s1 other' propnames
            | None \<Rightarrow> init_to_None ?s1 propnames) = Inr ?s2"
    using init_base [OF o] by (simp add: base_value_def [abs_def])
  have np: "map_of (rev (map (\<lambda>p. (p, base_value other p)) propnames)) write_protected = None"
    using write_protected_not_prop by (simp add: map_of_eq_None_iff image_iff)
  have f2: "?s2 write_protected = Some (PBool False)"
    using np by (simp add: map_add_def)
  have c: "(case props of Some (p # ps) \<Rightarrow> init_from_props ?s2 (p # ps) | _ \<Rightarrow> Inr ?s2) = Inr ?s3"
    using f2 p by (rule init_props_step)
  have d: "setattr_raise ?s3 write_protected (PBool True) = Inr (?s3(write_protected \<mapsto> PBool True))"
    by (simp add: setattr_raise_private write_protected_private)
  show ?thesis
    unfolding FileMetaData_init_def by (simp only: a b c d bindE_def sum.case)
qed


lemma setattr_locked:
  assumes "self write_protected = Some wp" "truthy wp" "\<not> startswith_underscore key"
  shows "FileMetaData_setattr self key value = (Some AssertionError, self)"
  using assms by (simp add: FileMetaData_setattr_def getattr_def)

lemma assign_each_locked:
  assumes "self write_protected = Some wp" "truthy wp"
    and "\<forall>kv \<in> set kvs. \<not> startswith_underscore (fst kv)"
  shows "assign_each self kvs = (replicate (length kvs) (Some AssertionError), self)"
  using assms(3)
proof (induction kvs)
  case Nil
  show ?case by simp
next
  case (Cons kv kvs)
  obtain k v where kv: "kv = (k, v)" by (cases kv)
  have "FileMetaData_setattr self k v = (Some AssertionError, self)"
    using assms(1,2) Cons.prems kv by (intro setattr_locked) simp_all
  then show ?case using Cons kv by simp
qed

text \<open>
  C8 (as amended). A \<^verbatim>\<open>FileMetaData\<close> instance is write-protected after construction.
  Construction from a props dict (whose keys are distinct and do not include the private
  flag) and from another instance (which has every property) succeeds; the new instance
  has each given property at its given value and every other property at the value of
  \<^verbatim>\<open>other\<close>, or \<^verbatim>\<open>None\<close>. From then on every assignment to an attribute whose
  name does not start with an underscore raises and leaves the instance as it was, and
  so does every sequence of such assignments: the properties stay as constructed for as
  long as no name that starts with an underscore is assigned.
\<close>

theorem FileMetaData_immutable_after_construction:
  assumes o: "\<forall>other'. other = Some other' \<longrightarrow> set propnames \<subseteq> dom other'"
    and p: "write_protected \<notin> fst ` set (dict_items props)"
    and d: "distinct (map fst (dict_items props))"
  shows "\<exists>self. FileMetaData_init props other = Inr self
      \<and> (\<forall>(k, v) \<in> set (dict_items props). self k = Some v)
      \<and> (\<forall>k \<in> set propnames. k \<notin> fst ` set (dict_items props)
            \<longrightarrow> self k = Some (base_value other k))
      \<and> (\<forall>key value. \<not> startswith_underscore key
            \<longrightarrow> FileMetaData_setattr self key value = (Some AssertionError, self))
      \<and> (\<forall>kvs. (\<forall>kv \<in> set kvs. \<not> startswith_underscore (fst kv))
            \<longrightarrow> assign_each self kvs = (replicate (length kvs) (Some AssertionError), self))"
proof -
  let ?base = "map (\<lambda>p. (p, base_value other p)) propnames"
  let ?self = "([write_protected \<mapsto> PBool False] ++ map_of (rev ?base)
                  ++ map_of (rev (dict_items props)))(write_protected \<mapsto> PBool True)"
  have i: "FileMetaData_init props other = Inr ?self"
    using o p by (rule FileMetaData_init_result)
  have flag: "?self write_protected = Some (PBool True)" by simp
  have dr: "distinct (map fst (rev (dict_items props)))"
    using d by (simp add: rev_map [symmetric])
  have given: "?self k = Some v" if kv: "(k, v) \<in> set (dict_items props)" for k v
  proof -
    have "k \<noteq> write_protected" using p kv by force
    moreover have "map_of (rev (dict_items props)) k = Some v"
      using dr kv by simp
    ultimately show ?thesis by (simp add: map_add_def)
  qed
  have db: "distinct (map fst (rev ?base))"
    by (simp add: rev_map [symmetric] comp_def propnames_def)
  have rest: "?self k = Some (base_value other k)"
    if k: "k \<in> set propnames" and n: "k \<notin> fst ` set (dict_items props)" for k
  proof -
    have "k \<noteq> write_protected" using k write_protected_not_prop by auto
    moreover have "map_of (rev (dict_items props)) k = None"
      using n by (simp add: map_of_eq_None_iff)
    moreover have "map_of (rev ?base) k = Some (base_value other k)"
      using db k by (intro map_of_is_SomeI) auto
    ultimately show ?thesis by (simp add: map_add_def)
  qed
  have locked: "FileMetaData_setattr ?self key v = (Some AssertionError, ?self)"
    if "\<not> startswith_underscore key" for key v
    by (rule setattr_locked [where wp = "PBool True"]) (simp_all add: that)
  have seq: "assign_each ?self kvs = (replicate (length kvs) (Some AssertionError), ?self)"
    if "\<forall>kv \<in> set kvs. \<not> startswith_underscore (fst kv)" for kvs
    by (rule assign_each_locked [where wp = "PBool True"]) (simp_all add: that)
  show ?thesis
    using i given rest locked seq by (intro exI [of _ ?self]) blast
qed


theorem FileMetaData_immutable_after_construction_witness:
  "\<exists>self. FileMetaData_init (Some [(''uid'', PInt 1000), (''is_regular'', PBool True)]) None = Inr self
      \<and> self ''uid'' = Some (PInt 1000)
      \<and> self ''is_regular'' = Some (PBool True)
      \<and> self ''gid'' = Some PNone
      \<and> FileMetaData_setattr self ''uid'' (PInt 0) = (Some AssertionError, self)
      \<and> assign_each self [(''uid'', PInt 0), (''size'', PInt 7)]
            = ([Some AssertionError, Some AssertionError], self)"
proof -
  let ?props = "Some [(''uid'', PInt 1000), (''is_regular'', PBool True)]"
  have o: "\<forall>other'. (None :: pyobj option) = Some other' \<longrightarrow> set propnames \<subseteq> dom other'"
    by simp
  have p: "write_protected \<notin> fst ` set (dict_items ?props)"
    by (simp add: dict_items_def write_protected_def)
  have d: "distinct (map fst (dict_items ?props))"
    by (simp add: dict_items_def)
  from FileMetaData_immutable_after_construction [OF o p d] obtain self where
    h: "FileMetaData_init ?props None = Inr self"
       "\<forall>(k, v) \<in> set (dict_items ?props). self k = Some v"
       "\<forall>k \<in> set propnames. k \<notin> fst ` set (dict_items ?props)
            \<longrightarrow> self k = Some (base_value None k)"
       "\<forall>key value. \<not> startswith_underscore key
            \<longrightarrow> FileMetaData_setattr self key value = (Some AssertionError, self)"
       "\<forall>kvs. (\<forall>kv \<in> set kvs. \<not> startswith_underscore (fst kv))
            \<longrightarrow> assign_each self kvs = (replicate (length kvs) (Some AssertionError), self)"
    by blast
  have a: "self ''uid'' = Some (PInt 1000)" "self ''is_regular'' = Some (PBool True)"
    using h(2) by (simp_all add: dict_items_def)
  have "''gid'' \<in> set propnames" by (simp add: propnames_def)
  moreover have "''gid'' \<notin> fst ` set (dict_items ?props)" by (simp add: dict_items_def)
  ultimately have b: "self ''gid'' = Some PNone"
    using h(3) by (simp add: base_value_def)
  have c: "FileMetaData_setattr self ''uid'' (PInt 0) = (Some AssertionError, self)"
    using h(4) by (simp add: startswith_underscore_def)
  have "\<forall>kv \<in> set [(''uid'', PInt 0), (''size'', PInt 7)]. \<not> startswith_underscore (fst kv)"
    by (simp add: startswith_underscore_def)
  with h(5) have e: "assign_each self [(''uid'', PInt 0), (''size'', PInt 7)]
            = (replicate (length [(''uid'', PInt 0), (''size'', PInt 7)]) (Some AssertionError), self)"
    by blast
  show ?thesis using h(1) a b c e by (intro exI [of _ self]) (simp add: numeral_2_eq_2)
qed

text \<open>
  C8 as stated fails: the write protection exempts names that start with an underscore,
  and the flag is such a name. On an instance constructed with \<^verbatim>\<open>uid\<close> 1000,
  assigning \<^verbatim>\<open>False\<close> to \<^verbatim>\<open>_FileMetaData__write_protected\<close> does not raise, and the
  assignment of 0 to \<^verbatim>\<open>uid\<close> after it does not raise either and changes the property.
\<close>

theorem FileMetaData_unlock_counterexample:
  "construct_assign_read (Some [(''uid'', PInt 1000)]) None [] [''uid'']
     = Inr ([], [Some (PInt 1000)])
   \<and> construct_assign_read (Some [(''uid'', PInt 1000)]) None
       [(''_FileMetaData__write_protected'', PBool False), (''uid'', PInt 0)] [''uid'']
     = Inr ([None, None], [Some (PInt 0)])"
  by code_simp

lemma setattr_raise_dom:
  assumes "setattr_raise self key v = Inr self'"
  shows "self' = self(key \<mapsto> v)"
  using assms
  by (auto simp: setattr_raise_def FileMetaData_setattr_def split: if_splits sum.splits)

lemma init_from_props_dom:
  assumes "init_from_props self kvs = Inr self'"
  shows "dom self \<union> fst ` set kvs \<subseteq> dom self'"
  using assms
proof (induction kvs arbitrary: self)
  case Nil
  then show ?case by simp
next
  case (Cons kv kvs)
  obtain k v where kv: "kv = (k, v)" by (cases kv)
  from Cons.prems kv obtain s1 where
    s1: "setattr_raise self k v = Inr s1" and r: "init_from_props s1 kvs = Inr self'"
    by (auto simp: bindE_def split: sum.splits)
  have "s1 = self(k \<mapsto> v)" using s1 by (rule setattr_raise_dom)
  moreover have "dom s1 \<union> fst ` set kvs \<subseteq> dom self'" using r by (rule Cons.IH)
  ultimately show ?case using kv by auto
qed

lemma init_to_None_dom:
  assumes "init_to_None self ps = Inr self'"
  shows "dom self \<union> set ps \<subseteq> dom self'"
proof -
  have "dom self \<union> fst ` set (map (\<lambda>p. (p, PNone)) ps) \<subseteq> dom self'"
    using assms unfolding init_to_None_as_props by (rule init_from_props_dom)
  then show ?thesis by (simp add: image_comp comp_def)
qed

lemma init_from_other_dom:
  assumes "init_from_other self other ps = Inr self'"
  shows "dom self \<union> set ps \<subseteq> dom self'"
  using assms
proof (induction ps arbitrary: self)
  case Nil
  then show ?case by simp
next
  case (Cons p ps)
  from Cons.prems obtain v s1 where
    s1: "setattr_raise self p v = Inr s1" and r: "init_from_other s1 other ps = Inr self'"
    by (auto simp: bindE_def split: sum.splits)
  have "s1 = self(p \<mapsto> v)" using s1 by (rule setattr_raise_dom)
  moreover have "dom s1 \<union> set ps \<subseteq> dom self'" using r by (rule Cons.IH)
  ultimately show ?case by auto
qed

lemma FileMetaData_init_dom:
  assumes "FileMetaData_init props other = Inr self"
  shows "set propnames \<subseteq> dom self"
proof -
  from assms obtain s1 s2 s3 where
    s2: "(case other of Some other' \<Rightarrow> init_from_other s1 other' propnames
          | None \<Rightarrow> init_to_None s1 propnames) = Inr s2"
    and s3: "(case props of Some (p # ps) \<Rightarrow> init_from_props s2 (p # ps) | _ \<Rightarrow> Inr s2) = Inr s3"
    and s4: "setattr_raise s3 write_protected (PBool True) = Inr self"
    unfolding FileMetaData_init_def by (auto simp: bindE_def split: sum.splits)
  have a: "set propnames \<subseteq> dom s2"
    using s2 init_from_other_dom init_to_None_dom by (cases other) fastforce+
  have b: "dom s2 \<subseteq> dom s3"
  proof (cases props)
    case None
    then show ?thesis using s3 by simp
  next
    case (Some ps)
    then show ?thesis using s3 init_from_props_dom [of s2 ps s3] by (cases ps) auto
  qed
  have "self = s3(write_protected \<mapsto> PBool True)" using s4 by (rule setattr_raise_dom)
  then show ?thesis using a b by auto
qed


lemma user_read_not_prop: "''user_read'' \<notin> set propnames"
  by (simp add: propnames_def)

lemma getitem_class_list:
  assumes "self ''propnames'' = None"
  shows "FileMetaData_getitem self key
           = (if key \<in> set propnames then getattr self key else Inl (KeyError key))"
proof -
  have g: "getattr self ''propnames'' = Inr (PList (map PStr propnames))"
    using assms by (simp add: getattr_def class_attr_def)
  have m: "PStr key \<in> PStr ` set propnames \<longleftrightarrow> key \<in> set propnames"
    by auto
  show ?thesis
    by (simp add: FileMetaData_getitem_def g bindE_def m)
qed

lemma getitem_prop:
  assumes "self ''propnames'' = None" "key \<in> dom self" "key \<in> set propnames"
  shows "\<exists>v. self key = Some v \<and> FileMetaData_getitem self key = Inr v"
proof -
  from assms(2) obtain v where "self key = Some v" by auto
  then show ?thesis
    using assms(3) by (simp add: getitem_class_list [where self = self, OF assms(1)] getattr_def)
qed

lemma mode_to_str_KeyError:
  assumes np: "self ''propnames'' = None" and dom: "set type_attrs \<subseteq> dom self"
    and ns: "non_symlink_type self"
  shows "mode_to_str (FileMetaData_getitem self) = Inl (KeyError ''user_read'')"
proof -
  let ?d = "FileMetaData_getitem self"
  have t: "k \<in> dom self" if "k \<in> set type_attrs" for k using dom that by auto
  obtain r where r: "self ''is_regular'' = Some r" "?d ''is_regular'' = Inr r"
    using getitem_prop [where self = self, OF np t, of "''is_regular''"] by (auto simp: propnames_def type_attrs_def)
  obtain b where b: "self ''is_block_device'' = Some b" "?d ''is_block_device'' = Inr b"
    using getitem_prop [where self = self, OF np t, of "''is_block_device''"]
    by (auto simp: propnames_def type_attrs_def)
  obtain c where c: "self ''is_character_device'' = Some c" "?d ''is_character_device'' = Inr c"
    using getitem_prop [where self = self, OF np t, of "''is_character_device''"]
    by (auto simp: propnames_def type_attrs_def)
  obtain dir where dir: "self ''is_directory'' = Some dir" "?d ''is_directory'' = Inr dir"
    using getitem_prop [where self = self, OF np t, of "''is_directory''"]
    by (auto simp: propnames_def type_attrs_def)
  obtain l where l: "self ''is_symlink'' = Some l" "?d ''is_symlink'' = Inr l"
    using getitem_prop [where self = self, OF np t, of "''is_symlink''"] by (auto simp: propnames_def type_attrs_def)
  obtain f where f: "self ''is_fifo'' = Some f" "?d ''is_fifo'' = Inr f"
    using getitem_prop [where self = self, OF np t, of "''is_fifo''"] by (auto simp: propnames_def type_attrs_def)
  have nl: "\<not> truthy l" using ns l(1) by (simp add: non_symlink_type_def attr_true_def)
  have some: "truthy r \<or> truthy b \<or> truthy c \<or> truthy dir \<or> truthy f"
    using ns r(1) b(1) c(1) dir(1) f(1) by (simp add: non_symlink_type_def attr_true_def)
  have "\<exists>chars. mode_type_char ?d = Inr chars"
    using some nl by (auto simp: mode_type_char_def bindE_def r(2) b(2) c(2) dir(2) l(2) f(2))
  then obtain chars where ch: "mode_type_char ?d = Inr chars" by blast
  have u: "?d ''user_read'' = Inl (KeyError ''user_read'')"
    using user_read_not_prop by (simp add: getitem_class_list [where self = self, OF np])
  have p: "mode_perm_char ?d ''user_read'' CHR ''r'' = Inl (KeyError ''user_read'')"
    by (simp add: mode_perm_char_def bindE_def u)
  show ?thesis
    unfolding mode_to_str_def by (simp add: bindE_def ch l(2) nl p)
qed

lemma init_from_props_other_keys:
  assumes "init_from_props self kvs = Inr self'" "k \<notin> fst ` set kvs"
  shows "self' k = self k"
  using assms
proof (induction kvs arbitrary: self)
  case Nil
  then show ?case by simp
next
  case (Cons kv kvs)
  obtain a v where kv: "kv = (a, v)" by (cases kv)
  from Cons.prems(1) kv obtain s1 where
    s1: "setattr_raise self a v = Inr s1" and r: "init_from_props s1 kvs = Inr self'"
    by (auto simp: bindE_def split: sum.splits)
  have e: "s1 = self(a \<mapsto> v)" using s1 by (rule setattr_raise_dom)
  have "self' k = s1 k" using r Cons.prems(2) by (intro Cons.IH) simp_all
  then show ?case using e Cons.prems(2) kv by simp
qed

lemma init_from_other_other_keys:
  assumes "init_from_other self other ps = Inr self'" "k \<notin> set ps"
  shows "self' k = self k"
  using assms
proof (induction ps arbitrary: self)
  case Nil
  then show ?case by simp
next
  case (Cons p ps)
  from Cons.prems(1) obtain v s1 where
    s1: "setattr_raise self p v = Inr s1" and r: "init_from_other s1 other ps = Inr self'"
    by (auto simp: bindE_def split: sum.splits)
  have e: "s1 = self(p \<mapsto> v)" using s1 by (rule setattr_raise_dom)
  have "self' k = s1 k" using r Cons.prems(2) by (intro Cons.IH) simp_all
  then show ?case using e Cons.prems(2) by simp
qed

lemma init_to_None_other_keys:
  assumes "init_to_None self ps = Inr self'" "k \<notin> set ps"
  shows "self' k = self k"
proof -
  have "k \<notin> fst ` set (map (\<lambda>p. (p, PNone)) ps)" using assms(2) by (auto simp: image_iff)
  with assms(1) show ?thesis
    unfolding init_to_None_as_props by (rule init_from_props_other_keys)
qed

lemma type_attrs_props: "set type_attrs \<subseteq> set propnames"
  by (simp add: type_attrs_def propnames_def)

text \<open>
  An instance constructed from props without the key \<^verbatim>\<open>propnames\<close> has no such
  attribute of its own, and has the six file type attributes.
\<close>

lemma FileMetaData_init_class_list:
  assumes i: "FileMetaData_init props other = Inr self"
    and n: "''propnames'' \<notin> fst ` set (dict_items props)"
  shows "self ''propnames'' = None" and "set type_attrs \<subseteq> dom self"
proof -
  from i obtain s1 s2 s3 where
    s1: "setattr_raise Map.empty write_protected (PBool False) = Inr s1"
    and s2: "(case other of Some other' \<Rightarrow> init_from_other s1 other' propnames
          | None \<Rightarrow> init_to_None s1 propnames) = Inr s2"
    and s3: "(case props of Some (p # ps) \<Rightarrow> init_from_props s2 (p # ps) | _ \<Rightarrow> Inr s2) = Inr s3"
    and s4: "setattr_raise s3 write_protected (PBool True) = Inr self"
    unfolding FileMetaData_init_def by (auto simp: bindE_def split: sum.splits)
  have np: "''propnames'' \<notin> set propnames" by (simp add: propnames_def)
  have nw: "''propnames'' \<noteq> write_protected" by (simp add: write_protected_def)
  have e1: "s1 = Map.empty(write_protected \<mapsto> PBool False)" using s1 by (rule setattr_raise_dom)
  have e2: "s2 ''propnames'' = s1 ''propnames''"
    using s2 np init_from_other_other_keys init_to_None_other_keys by (cases other) fastforce+
  have e3: "s3 ''propnames'' = s2 ''propnames''"
  proof (cases props)
    case None
    then show ?thesis using s3 by simp
  next
    case (Some ps)
    show ?thesis
    proof (cases ps)
      case Nil
      then show ?thesis using s3 Some by simp
    next
      case (Cons q qs)
      have "init_from_props s2 ps = Inr s3" using s3 Some Cons by simp
      moreover have "''propnames'' \<notin> fst ` set ps" using n Some by (simp add: dict_items_def)
      ultimately show ?thesis by (rule init_from_props_other_keys)
    qed
  qed
  have e4: "self = s3(write_protected \<mapsto> PBool True)" using s4 by (rule setattr_raise_dom)
  show "self ''propnames'' = None" using e1 e2 e3 e4 nw by simp
  show "set type_attrs \<subseteq> dom self"
    using FileMetaData_init_dom [OF i] type_attrs_props by blast
qed

text \<open>
  C9 (as amended). On every instance that has no attribute \<^verbatim>\<open>propnames\<close> of its own,
  so that \<^verbatim>\<open>self.propnames\<close> is the list of the class with \<^verbatim>\<open>'yser_read'\<close>,
  looking up \<^verbatim>\<open>'user_read'\<close> by \<^verbatim>\<open>__getitem__\<close> raises \<^verbatim>\<open>KeyError\<close>; and when such
  an instance has the six file type attributes and describes a file type other than a
  symbolic link, \<^verbatim>\<open>mode_to_str\<close> raises that \<^verbatim>\<open>KeyError\<close>.
\<close>

theorem user_read_lookup_raises_KeyError:
  assumes "self ''propnames'' = None"
  shows "FileMetaData_getitem self ''user_read'' = Inl (KeyError ''user_read'')
       \<and> (set type_attrs \<subseteq> dom self \<and> non_symlink_type self
            \<longrightarrow> mode_to_str (FileMetaData_getitem self) = Inl (KeyError ''user_read''))"
proof -
  have "FileMetaData_getitem self ''user_read'' = Inl (KeyError ''user_read'')"
    using user_read_not_prop by (simp add: getitem_class_list [where self = self, OF assms])
  moreover have "mode_to_str (FileMetaData_getitem self) = Inl (KeyError ''user_read'')"
    if "set type_attrs \<subseteq> dom self" "non_symlink_type self"
    using assms that by (rule mode_to_str_KeyError)
  ultimately show ?thesis by blast
qed

theorem user_read_lookup_raises_KeyError_witness:
  "\<exists>self. FileMetaData_init (Some [(''is_directory'', PBool True), (''is_symlink'', PBool False)]) None
             = Inr self
      \<and> self ''propnames'' = None
      \<and> non_symlink_type self
      \<and> FileMetaData_getitem self ''user_read'' = Inl (KeyError ''user_read'')
      \<and> mode_to_str (FileMetaData_getitem self) = Inl (KeyError ''user_read'')"
proof -
  let ?props = "Some [(''is_directory'', PBool True), (''is_symlink'', PBool False)]"
  have o: "\<forall>other'. (None :: pyobj option) = Some other' \<longrightarrow> set propnames \<subseteq> dom other'"
    by simp
  have p: "write_protected \<notin> fst ` set (dict_items ?props)"
    by (simp add: dict_items_def write_protected_def)
  have i: "FileMetaData_init ?props None =
             Inr (([write_protected \<mapsto> PBool False]
                  ++ map_of (rev (map (\<lambda>p. (p, base_value None p)) propnames))
                  ++ map_of (rev (dict_items ?props)))(write_protected \<mapsto> PBool True))"
    (is "_ = Inr ?self")
    using o p by (rule FileMetaData_init_result)
  have q: "''propnames'' \<notin> fst ` set (dict_items ?props)" by (simp add: dict_items_def)
  note c = FileMetaData_init_class_list [OF i q]
  have n: "non_symlink_type ?self"
    by (simp add: non_symlink_type_def attr_true_def dict_items_def write_protected_def map_add_def)
  show ?thesis
    using user_read_lookup_raises_KeyError [where self = ?self, OF c(1)] i n c
    by (intro exI [of _ ?self]) simp
qed

text \<open>
  C9 as stated fails on an instance constructed with an entry \<^verbatim>\<open>propnames\<close> among its
  props: the entry shadows the list of the class, \<^verbatim>\<open>md['user_read']\<close> returns the
  attribute, and \<^verbatim>\<open>mode_to_str\<close> returns a mode string.
\<close>

theorem user_read_lookup_shadowed_counterexample:
  "construct_getitem
     (Some [(''propnames'', PList (map PStr (''user_read'' # propnames))),
            (''user_read'', PBool True), (''is_regular'', PBool True)])
     None ''user_read'' = Inr (PBool True)
   \<and> construct_mode_to_str
     (Some [(''propnames'', PList (map PStr (''user_read'' # propnames))),
            (''user_read'', PBool True), (''is_regular'', PBool True)])
     None = Inr ''-r--------''"
  by code_simp

section \<open>Properties of the skip-blocks loop\<close>

lemma skip_blocks_loop_sha512:
  assumes "\<forall>h \<in> set lines. length (strip h) = 128"
  shows "skip_blocks_loop lines (Some ''sha512'', uploaded)
           = Inr (Some ''sha512'', uploaded @ map (\<lambda>h. (''sha512'', strip h)) lines)"
  using assms
proof (induction lines arbitrary: uploaded)
  case Nil
  show ?case by simp
next
  case (Cons h lines)
  have "skip_blocks_loop (h # lines) (Some ''sha512'', uploaded)
          = skip_blocks_loop lines (Some ''sha512'', uploaded @ [(''sha512'', strip h)])"
    by (simp add: Let_def)
  also have "\<dots> = Inr (Some ''sha512'',
                 (uploaded @ [(''sha512'', strip h)]) @ map (\<lambda>h. (''sha512'', strip h)) lines)"
    using Cons.prems by (intro Cons.IH) simp
  finally show ?case by simp
qed

text \<open>
  C7 (as amended). For a skip-blocks file every line of which is, once stripped of
  surrounding whitespace, 128 characters long (a SHA-512 digest in hex),
  \<^verbatim>\<open>persist\<close> seeds the skip-set with one entry per line, in order: the pair of
  \<^verbatim>\<open>'sha512'\<close> and the stripped line.
\<close>

theorem persist_skip_blocks_sha512_lines:
  assumes "\<forall>h \<in> set lines. length (strip h) = 128"
  shows "persist_skip_blocks (Some lines) = Inr (map (\<lambda>h. (''sha512'', strip h)) lines)"
proof (cases lines)
  case Nil
  then show ?thesis by (simp add: persist_skip_blocks_def)
next
  case (Cons h rest)
  have h: "length (strip h) = 128" and r: "\<forall>h \<in> set rest. length (strip h) = 128"
    using assms Cons by simp_all
  have "skip_blocks_loop (h # rest) (None, [])
          = skip_blocks_loop rest (Some ''sha512'', [] @ [(''sha512'', strip h)])"
    using h by (simp add: Let_def)
  also have "\<dots> = Inr (Some ''sha512'',
                 ([] @ [(''sha512'', strip h)]) @ map (\<lambda>h. (''sha512'', strip h)) rest)"
    using r by (rule skip_blocks_loop_sha512)
  finally show ?thesis using Cons by (simp add: persist_skip_blocks_def)
qed

lemma strip_example_1: "strip ''0123456789abcdef0123456789abcdef0123456789abcdef0123456789abcdef0123456789abcdef0123456789abcdef0123456789abcdef0123456789abcdef\<newline>'' = ''0123456789abcdef0123456789abcdef0123456789abcdef0123456789abcdef0123456789abcdef0123456789abcdef0123456789abcdef0123456789abcdef''"
  by (simp add: strip_def py_isspace_def)

lemma strip_example_2: "strip ''  fedcba9876543210fedcba9876543210fedcba9876543210fedcba9876543210fedcba9876543210fedcba9876543210fedcba9876543210fedcba9876543210\<newline>'' = ''fedcba9876543210fedcba9876543210fedcba9876543210fedcba9876543210fedcba9876543210fedcba9876543210fedcba9876543210fedcba9876543210''"
  by (simp add: strip_def py_isspace_def)

theorem persist_skip_blocks_sha512_lines_witness:
  "persist_skip_blocks (Some [''0123456789abcdef0123456789abcdef0123456789abcdef0123456789abcdef0123456789abcdef0123456789abcdef0123456789abcdef0123456789abcdef\<newline>'', ''  fedcba9876543210fedcba9876543210fedcba9876543210fedcba9876543210fedcba9876543210fedcba9876543210fedcba9876543210fedcba9876543210\<newline>''])
     = Inr [(''sha512'', ''0123456789abcdef0123456789abcdef0123456789abcdef0123456789abcdef0123456789abcdef0123456789abcdef0123456789abcdef0123456789abcdef''), (''sha512'', ''fedcba9876543210fedcba9876543210fedcba9876543210fedcba9876543210fedcba9876543210fedcba9876543210fedcba9876543210fedcba9876543210'')]"
proof -
  have "\<forall>h \<in> set [''0123456789abcdef0123456789abcdef0123456789abcdef0123456789abcdef0123456789abcdef0123456789abcdef0123456789abcdef0123456789abcdef\<newline>'', ''  fedcba9876543210fedcba9876543210fedcba9876543210fedcba9876543210fedcba9876543210fedcba9876543210fedcba9876543210fedcba9876543210\<newline>'']. length (strip h) = 128"
    by (simp add: strip_example_1 strip_example_2)
  from persist_skip_blocks_sha512_lines [OF this] show ?thesis
    by (simp add: strip_example_1 strip_example_2)
qed

text \<open>
  C7 as stated fails: on a file whose only line is \<^verbatim>\<open>abc\<close> the loop reaches
  \<^verbatim>\<open>uploaded.append( (alg, hash) )\<close> with \<^verbatim>\<open>alg\<close> unbound, and \<^verbatim>\<open>persist\<close>
  raises instead of recording \<^verbatim>\<open>('sha512', 'abc')\<close>.
\<close>

theorem persist_skip_blocks_short_line_counterexample:
  "persist_skip_blocks (Some [''abc\<newline>'']) = Inl (UnboundLocalError ''alg'')"
  by (simp add: persist_skip_blocks_def strip_def py_isspace_def Let_def)

section \<open>Properties of list_orphans\<close>

text \<open>
  C6. With \<^verbatim>\<open>aa\<close> and \<^verbatim>\<open>bb\<close> in the data backend and one manifest whose only
  file has the block \<^verbatim>\<open>('sha512', 'aa')\<close>, \<^verbatim>\<open>list_orphans\<close> prints both names,
  where only \<^verbatim>\<open>bb\<close> is in no manifest.
\<close>

theorem list_orphans_prints_referenced_block:
  "list_orphans [''aa'', ''bb''] [(''monday'', [(''file.txt'', (), [(''sha512'', ''aa'')])])]
     = Inr [''aa'', ''bb'']
   \<and> orphans_spec [''aa'', ''bb''] [(''monday'', [(''file.txt'', (), [(''sha512'', ''aa'')])])]
     = [''bb'']"
  by (simp add: list_orphans_def unzip_pairs_def get_all_blockhashes_def flatten_def bindE_def
        orphans_spec_def)

lemma tuple_not_among_strings: "PTuple xs \<notin> set (map PStr ys)"
  by auto

lemma list_orphans_prints_all:
  "list_orphans all_blocks lmfs = Inr out \<Longrightarrow> out = all_blocks"
  unfolding list_orphans_def
  by (simp only: tuple_not_among_strings not_False_eq_True filter_True)
     (auto simp: bindE_def split: sum.splits prod.splits)

section \<open>Properties of BackendWrapper\<close>

text \<open>
  C3. Over an in-memory backend holding \<^verbatim>\<open>x\<close>, \<^verbatim>\<open>get('x')\<close> of the base
  \<^verbatim>\<open>BackendWrapper\<close> calls the inner \<^verbatim>\<open>put\<close> with one argument and raises, where
  the inner \<^verbatim>\<open>get('x')\<close> returns the data; and \<^verbatim>\<open>delete('x')\<close> of the wrapper is
  the unimplemented method of the base class, where the inner \<^verbatim>\<open>delete\<close> removes
  the name.
\<close>

theorem BackendWrapper_get_calls_put:
  "be_get (BackendWrapper MemoryBackend) [PStr ''x''] [(''x'', ''data'')]
     = (Inl TypeError, [(''x'', ''data'')])
   \<and> be_get MemoryBackend [PStr ''x''] [(''x'', ''data'')]
     = (Inr (PStr ''data''), [(''x'', ''data'')])
   \<and> be_delete (BackendWrapper MemoryBackend) [PStr ''x''] [(''x'', ''data'')]
     = (Inl NotImplementedError, [(''x'', ''data'')])
   \<and> be_delete MemoryBackend [PStr ''x''] [(''x'', ''data'')] = (Inr PNone, [])"
  by (simp add: BackendWrapper_def MemoryBackend_def Backend_def not_implemented_def)

lemma BackendWrapper_put_list_delegate:
  "be_put (BackendWrapper inner) args st = be_put inner args st"
  "be_list (BackendWrapper inner) args st = be_list inner args st"
  by (simp_all add: BackendWrapper_def)

section \<open>Properties of the name wrapper\<close>

lemma struct_pack_l_length:
  "struct_pack_l n = Inr p \<Longrightarrow> length p = 4"
  by (auto simp: struct_pack_l_def split: if_splits)

lemma of_char_char_of_int: "(of_char (char_of (k :: int)) :: int) = k mod 256"
  by simp

lemma struct_unpack_pack:
  assumes "0 \<le> n" "n < 2 ^ 31"
  shows "\<exists>p. struct_pack_l n = Inr p \<and> length p = 4 \<and> struct_unpack_l p = Inr n"
proof -
  let ?p = "[char_of (n div 2 ^ 24), char_of (n div 2 ^ 16), char_of (n div 2 ^ 8), char_of n]"
  have p: "struct_pack_l n = Inr ?p" using assms by (simp add: struct_pack_l_def)
  define a where "a = n div 256"
  define b where "b = a div 256"
  define c where "c = b div 256"
  have d16: "n div 2 ^ 16 = b" unfolding b_def a_def by (simp add: zdiv_zmult2_eq)
  have d24: "n div 2 ^ 24 = c" unfolding c_def b_def a_def by (simp add: zdiv_zmult2_eq)
  have d8: "n div 2 ^ 8 = a" unfolding a_def by simp
  define r0 where "r0 = n mod 256"
  define r1 where "r1 = a mod 256"
  define r2 where "r2 = b mod 256"
  have en: "n = 256 * a + r0" unfolding a_def r0_def by simp
  have ea: "a = 256 * b + r1" unfolding b_def r1_def by simp
  have eb: "b = 256 * c + r2" unfolding c_def r2_def by simp
  have cs: "0 \<le> c" "c < 128" using assms unfolding c_def b_def a_def by simp_all
  have cm: "c mod 256 = c" using cs by simp
  have "((c * 256 + r2) * 256 + r1) * 256 + r0 = n"
    using en ea eb by simp
  then have v: "((c mod 256 * 256 + b mod 256) * 256 + a mod 256) * 256 + n mod 256 = n"
    unfolding cm r0_def r1_def r2_def .
  have v31: "\<not> 2 ^ 31 \<le> n" using assms by simp
  have "struct_unpack_l ?p = Inr n"
    unfolding struct_unpack_l_def d8 d16 d24
    by (simp only: list.case of_char_char_of_int Let_def v v31 if_False)
  with p show ?thesis by simp
qed

lemma below_16_cases:
  assumes "n < (16 :: nat)"
  shows "n = 0 \<or> n = 1 \<or> n = 2 \<or> n = 3 \<or> n = 4 \<or> n = 5 \<or> n = 6 \<or> n = 7
       \<or> n = 8 \<or> n = 9 \<or> n = 10 \<or> n = 11 \<or> n = 12 \<or> n = 13 \<or> n = 14 \<or> n = 15"
  using assms by arith

lemma bindE_Inr: "bindE (Inr x) f = f x"
  by (simp add: bindE_def)

lemma bindE_Inl: "bindE (Inl e) f = Inl e"
  by (simp add: bindE_def)

lemma hexdigit_props:
  assumes "n < 16"
  shows "hexval (hexdigit n) = Some n"
    and "\<not> py_isspace (hexdigit n)"
    and "hexdigit n \<noteq> CHR ''+''" and "hexdigit n \<noteq> CHR ''-''"
    and "hexdigit n \<noteq> CHR ''x''" and "hexdigit n \<noteq> CHR ''X''"
    and "hexdigit n \<noteq> CHR 0x0A"
  using below_16_cases [OF assms]
  by (auto simp: hexdigit_def hexval_def py_isspace_def)

lemma strip_no_space:
  assumes "\<not> py_isspace a" "\<not> py_isspace b"
  shows "strip [a, b] = [a, b]"
  using assms by (simp add: strip_def)

lemma py_int16_hexdigits:
  assumes "hi < 16" "lo < 16"
  shows "py_int16 [hexdigit hi, hexdigit lo] = Inr (int (16 * hi + lo))"
proof -
  note h = hexdigit_props [OF assms(1)] and l = hexdigit_props [OF assms(2)]
  have s: "strip [hexdigit hi, hexdigit lo] = [hexdigit hi, hexdigit lo]"
    using h(2) l(2) by (rule strip_no_space)
  have n: "hexnum [hexdigit hi, hexdigit lo] 0 = Some (16 * hi + lo)"
    by (simp add: h(1) l(1))
  show ?thesis
    unfolding py_int16_def s using h(3,4) l(5,6) n by (simp add: Let_def)
qed

lemma chr_int16_hex2: "bindE (py_int16 (hex2 c)) py_chr = Inr c"
proof -
  let ?n = "of_char c :: nat"
  have lt: "?n < 256" by simp
  have hi: "?n div 16 < 16" using lt by arith
  have lo: "?n mod 16 < 16" by simp
  have "py_int16 (hex2 c) = Inr (int (16 * (?n div 16) + ?n mod 16))"
    unfolding hex2_def using hi lo by (rule py_int16_hexdigits)
  also have "16 * (?n div 16) + ?n mod 16 = ?n" by simp
  finally have i: "py_int16 (hex2 c) = Inr (int ?n)" .
  have "py_chr (int ?n) = Inr c"
    using lt by (simp add: py_chr_def)
  with i show ?thesis by (simp add: bindE_Inr)
qed

lemma hex2_no_newline: "\<exists>a b. hex2 c = [a, b] \<and> a \<noteq> CHR 0x0A \<and> b \<noteq> CHR 0x0A"
proof -
  let ?n = "of_char c :: nat"
  have "?n < 256" by simp
  then have hi: "?n div 16 < 16" by arith
  have lo: "?n mod 16 < 16" by simp
  show ?thesis
    unfolding hex2_def using hexdigit_props(7) [OF hi] hexdigit_props(7) [OF lo] by simp
qed

lemma findall2_hex: "findall2 (concat (map hex2 s)) = map hex2 s"
proof (induction s)
  case Nil
  show ?case by simp
next
  case (Cons c s)
  obtain a b where ab: "hex2 c = [a, b]" "a \<noteq> CHR 0x0A" "b \<noteq> CHR 0x0A"
    using hex2_no_newline by blast
  show ?case using ab Cons.IH by simp
qed

lemma mapE_chr_int16_hex: "mapE (\<lambda>x. bindE (py_int16 x) py_chr) (map hex2 s) = Inr s"
  by (induction s) (simp_all add: chr_int16_hex2 bindE_Inr)

lemma hex_decode_hex: "hex_decode (concat (map hex2 s)) = Inr s"
  by (simp add: hex_decode_def findall2_hex mapE_chr_int16_hex)

lemma struct_pack_l_length_prefix:
  assumes "n < 2 ^ 31"
  shows "struct_pack_l (int n) = Inr (length_prefix n)"
proof -
  have "int n < int (2 ^ 31)" using assms by (simp only: of_nat_less_iff)
  then have r: "int n < 2 ^ 31" by simp
  have d: "int n div 2 ^ 24 = int (n div 256 ^ 3)" "int n div 2 ^ 16 = int (n div 256 ^ 2)"
          "int n div 2 ^ 8 = int (n div 256 ^ 1)"
    by (simp_all add: zdiv_int)
  show ?thesis
    unfolding struct_pack_l_def length_prefix_def d using r by simp
qed

lemma length_length_prefix: "length (length_prefix n) = 4"
  by (simp add: length_prefix_def)

lemma struct_unpack_l_length_prefix:
  assumes "n < 2 ^ 31"
  shows "struct_unpack_l (length_prefix n) = Inr (int n)"
proof -
  have "int n < int (2 ^ 31)" using assms by (simp only: of_nat_less_iff)
  then have r: "0 \<le> int n" "int n < 2 ^ 31" by simp_all
  from struct_unpack_pack [OF r] obtain p where
    "struct_pack_l (int n) = Inr p" "struct_unpack_l p = Inr (int n)" by blast
  then show ?thesis using struct_pack_l_length_prefix [OF assms] by simp
qed

lemma length_pad_to_block: "length (pad_to_block s) mod 16 = 0"
  unfolding pad_to_block_def by (simp add: mod_simps) presburger

lemma pad_to_block_code:
  "(if length s mod 16 \<noteq> 0 then s @ replicate (16 - length s mod 16) CHR '' '' else s)
     = pad_to_block s"
  by (simp add: pad_to_block_def)

lemma AES_new_16:
  assumes "16 \<le> length cryptoKey"
  shows "AES_new (take 16 cryptoKey) = Inr (take 16 cryptoKey)"
  using assms by (simp add: AES_new_def min_def)

lemma NameCrypto_enc_spec:
  assumes "16 \<le> length cryptoKey" "length name < 2 ^ 31"
  shows "NameCrypto_enc aes cryptoKey name = Inr (encrypt_name_spec aes cryptoKey name)"
  unfolding NameCrypto_enc_def encrypt_name_spec_def
  by (simp only: AES_new_16 [OF assms(1)] struct_pack_l_length_prefix [OF assms(2)] bindE_Inr
        Let_def pad_to_block_code crypt_encrypt_def length_pad_to_block)
     (simp add: bindE_Inr)

lemma take_drop_padded:
  "take 4 (pad_to_block (length_prefix n @ name)) = length_prefix n"
  "take (length name) (drop 4 (pad_to_block (length_prefix n @ name))) = name"
  "4 + length name \<le> length (pad_to_block (length_prefix n @ name))"
  by (simp_all add: pad_to_block_def length_length_prefix)

lemma NameCrypto_dec_of_spec:
  assumes ci: "cipher_inverts aes (take 16 cryptoKey)"
    and kl: "16 \<le> length cryptoKey" and nl: "length name < 2 ^ 31"
  shows "NameCrypto_dec aes cryptoKey (encrypt_name_spec aes cryptoKey name)
           = (if name = [] then Inl (StringException wrong_key_message) else Inr name)"
proof -
  let ?pt = "pad_to_block (length_prefix (length name) @ name)"
  let ?ct = "cbc_encrypt aes (take 16 cryptoKey) ?pt"
  have al: "length ?pt mod 16 = 0" by (rule length_pad_to_block)
  have "length ?ct = length ?pt \<and> cbc_decrypt aes (take 16 cryptoKey) ?ct = ?pt"
    using ci al by (simp add: cipher_inverts_def)
  then have cl: "length ?ct = length ?pt" and rt: "cbc_decrypt aes (take 16 cryptoKey) ?ct = ?pt"
    by simp_all
  have h: "hex_decode (encrypt_name_spec aes cryptoKey name) = Inr ?ct"
    unfolding encrypt_name_spec_def by (rule hex_decode_hex)
  have d: "crypt_decrypt aes (take 16 cryptoKey) ?ct = Inr ?pt"
    unfolding crypt_decrypt_def using cl al rt by simp
  have u: "struct_unpack_l (take 4 ?pt) = Inr (int (length name))"
    unfolding take_drop_padded(1) using nl by (rule struct_unpack_l_length_prefix)
  have b: "length name < length ?pt"
    using take_drop_padded(3) [of name "length name"] by linarith
  have t: "take (length name) (drop 4 ?pt) = name"
    by (rule take_drop_padded(2))
  show ?thesis
    unfolding NameCrypto_dec_def
    by (simp only: AES_new_16 [OF kl] h d u bindE_Inr) (simp add: b t)
qed

lemma NameCrypto_dec_rejects:
  assumes "AES_new (take 16 cryptoKey) = Inr crypt" "hex_decode cfn = Inr buf"
    and "crypt_decrypt aes crypt buf = Inr dec'" "struct_unpack_l (take 4 dec') = Inr l"
    and "\<not> (0 < l \<and> l < int (length dec'))"
  shows "NameCrypto_dec aes cryptoKey cfn = Inl (StringException wrong_key_message)"
  unfolding NameCrypto_dec_def using assms by (simp add: bindE_Inr)

text \<open>
  C1 (as amended). For every non-empty name shorter than \<open>2^31\<close> bytes (so also for
  names longer than one cipher block), under a key of at least 16 bytes and a cipher
  whose decryption inverts its encryption, \<^verbatim>\<open>__dec(__enc(name))\<close> is the name.
  Decryption fails on every ciphertext whose hex decoding decrypts to a buffer with a
  length prefix \<^verbatim>\<open>l\<close> outside \<^verbatim>\<open>0 < l < len(dec)\<close>.
\<close>

theorem NameCrypto_round_trip_nonempty:
  assumes "cipher_inverts aes (take 16 cryptoKey)" "16 \<le> length cryptoKey"
    and "name \<noteq> []" "length name < 2 ^ 31"
  shows "(\<exists>cfn. NameCrypto_enc aes cryptoKey name = Inr cfn
              \<and> NameCrypto_dec aes cryptoKey cfn = Inr name)
       \<and> (\<forall>cfn buf dec' l.
              hex_decode cfn = Inr buf
            \<and> crypt_decrypt aes (take 16 cryptoKey) buf = Inr dec'
            \<and> struct_unpack_l (take 4 dec') = Inr l
            \<and> \<not> (0 < l \<and> l < int (length dec'))
            \<longrightarrow> NameCrypto_dec aes cryptoKey cfn = Inl (StringException wrong_key_message))"
proof -
  have "NameCrypto_enc aes cryptoKey name = Inr (encrypt_name_spec aes cryptoKey name)"
    using assms(2,4) by (rule NameCrypto_enc_spec)
  moreover have "NameCrypto_dec aes cryptoKey (encrypt_name_spec aes cryptoKey name) = Inr name"
    using NameCrypto_dec_of_spec [OF assms(1,2,4)] assms(3) by simp
  ultimately have rt: "\<exists>cfn. NameCrypto_enc aes cryptoKey name = Inr cfn
              \<and> NameCrypto_dec aes cryptoKey cfn = Inr name"
    by blast
  have rj: "NameCrypto_dec aes cryptoKey cfn = Inl (StringException wrong_key_message)"
    if "hex_decode cfn = Inr buf \<and> crypt_decrypt aes (take 16 cryptoKey) buf = Inr dec'
        \<and> struct_unpack_l (take 4 dec') = Inr l \<and> \<not> (0 < l \<and> l < int (length dec'))"
    for cfn buf dec' l
    using that AES_new_16 [OF assms(2)] by (intro NameCrypto_dec_rejects) auto
  show ?thesis using rt rj by blast
qed

lemma plain_cipher_inverts: "cipher_inverts plain_cipher key"
  by (simp add: cipher_inverts_def plain_cipher_def)

theorem NameCrypto_round_trip_nonempty_witness:
  "NameCrypto_enc plain_cipher ''0123456789abcdef'' ''manifest-2009-07-01''
     = Inr ''000000136d616e69666573742d323030392d30372d3031202020202020202020''
   \<and> NameCrypto_dec plain_cipher ''0123456789abcdef''
        ''000000136d616e69666573742d323030392d30372d3031202020202020202020''
     = Inr ''manifest-2009-07-01''
   \<and> NameCrypto_dec plain_cipher ''0123456789abcdef'' ''ffffffff202020202020202020202020''
     = Inl (StringException wrong_key_message)"
proof -
  have e: "NameCrypto_enc plain_cipher ''0123456789abcdef'' ''manifest-2009-07-01''
     = Inr ''000000136d616e69666573742d323030392d30372d3031202020202020202020''"
    by code_simp
  have h: "cipher_inverts plain_cipher (take 16 ''0123456789abcdef'')"
      "16 \<le> length ''0123456789abcdef''" "''manifest-2009-07-01'' \<noteq> []"
      "length ''manifest-2009-07-01'' < 2 ^ 31"
    by (simp_all add: plain_cipher_inverts)
  note t = NameCrypto_round_trip_nonempty [OF h]
  from t e have a: "NameCrypto_dec plain_cipher ''0123456789abcdef''
        ''000000136d616e69666573742d323030392d30372d3031202020202020202020''
     = Inr ''manifest-2009-07-01''"
    by auto
  let ?buf = "[CHR 0xFF, CHR 0xFF, CHR 0xFF, CHR 0xFF] @ replicate 12 CHR '' ''"
  have p: "hex_decode ''ffffffff202020202020202020202020'' = Inr ?buf
            \<and> crypt_decrypt plain_cipher (take 16 ''0123456789abcdef'') ?buf = Inr ?buf
            \<and> struct_unpack_l (take 4 ?buf) = Inr (- 1)
            \<and> \<not> (0 < (- 1 :: int) \<and> - 1 < int (length ?buf))"
    by code_simp
  from t p have b: "NameCrypto_dec plain_cipher ''0123456789abcdef''
       ''ffffffff202020202020202020202020'' = Inl (StringException wrong_key_message)"
    by blast
  show ?thesis using e a b by simp
qed

text \<open>
  C1 as stated fails twice. The empty name does not round-trip: its ciphertext decrypts
  to the length prefix 0, which \<^verbatim>\<open>__dec\<close> rejects. And a corrupted ciphertext is
  not always rejected: with one byte of the ciphertext of \<^verbatim>\<open>ab\<close> changed,
  \<^verbatim>\<open>__dec\<close> returns \<^verbatim>\<open>cb\<close>.
\<close>

theorem NameCrypto_round_trip_counterexample:
  "NameCrypto_enc plain_cipher ''0123456789abcdef'' '''' = Inr ''00000000202020202020202020202020''
   \<and> NameCrypto_dec plain_cipher ''0123456789abcdef'' ''00000000202020202020202020202020''
       = Inl (StringException wrong_key_message)
   \<and> NameCrypto_enc plain_cipher ''0123456789abcdef'' ''ab'' = Inr ''00000002616220202020202020202020''
   \<and> NameCrypto_dec plain_cipher ''0123456789abcdef'' ''00000002636220202020202020202020''
       = Inr ''cb''"
  by code_simp

lemma NameCrypto_empty_name_rejected:
  assumes "cipher_inverts aes (take 16 cryptoKey)" "16 \<le> length cryptoKey"
  shows "\<exists>cfn. NameCrypto_enc aes cryptoKey [] = Inr cfn
             \<and> NameCrypto_dec aes cryptoKey cfn = Inl (StringException wrong_key_message)"
proof -
  have "NameCrypto_enc aes cryptoKey [] = Inr (encrypt_name_spec aes cryptoKey [])"
    using assms(2) by (intro NameCrypto_enc_spec) simp_all
  moreover have "NameCrypto_dec aes cryptoKey (encrypt_name_spec aes cryptoKey [])
                   = Inl (StringException wrong_key_message)"
    using NameCrypto_dec_of_spec [OF assms, of "[]"] by simp
  ultimately show ?thesis by blast
qed

text \<open>
  C2. On a ciphertext whose decrypted buffer is the prefix \<^verbatim>\<open>00 00 00 0d\<close> followed
  by twelve bytes, the length prefix is 13, more than the twelve bytes that remain after
  the prefix; \<^verbatim>\<open>__dec\<close> does not fail and returns twelve bytes.
\<close>

theorem NameCrypto_dec_returns_fewer_bytes:
  "hex_decode ''0000000d6162636465666768696a6b6c''
     = Inr [CHR 0x00, CHR 0x00, CHR 0x00, CHR 0x0D,
            CHR ''a'', CHR ''b'', CHR ''c'', CHR ''d'', CHR ''e'', CHR ''f'',
            CHR ''g'', CHR ''h'', CHR ''i'', CHR ''j'', CHR ''k'', CHR ''l'']
   \<and> struct_unpack_l [CHR 0x00, CHR 0x00, CHR 0x00, CHR 0x0D] = Inr 13
   \<and> NameCrypto_dec plain_cipher ''0123456789abcdef'' ''0000000d6162636465666768696a6b6c''
       = Inr ''abcdefghijkl''
   \<and> length ''abcdefghijkl'' = 12"
  by code_simp

lemma big_endian_length_prefix:
  assumes "n < 2 ^ 31"
  shows "big_endian_value (length_prefix n) = n"
proof -
  define a where "a = n div 256"
  define b where "b = a div 256"
  define c where "c = b div 256"
  define r0 where "r0 = n mod 256"
  define r1 where "r1 = a mod 256"
  define r2 where "r2 = b mod 256"
  have d1: "n div 256 ^ 1 = a" unfolding a_def by simp
  have d2: "n div 256 ^ 2 = b" unfolding b_def a_def by (simp add: div_mult2_eq)
  have d3: "n div 256 ^ 3 = c" unfolding c_def b_def a_def by (simp add: div_mult2_eq)
  have d0: "n div 256 ^ 0 = n" by simp
  have en: "n = 256 * a + r0" unfolding a_def r0_def by simp
  have ea: "a = 256 * b + r1" unfolding b_def r1_def by simp
  have eb: "b = 256 * c + r2" unfolding c_def r2_def by simp
  have "c < 128" using assms unfolding c_def b_def a_def by simp
  then have cm: "c mod 256 = c" by simp
  have "big_endian_value (length_prefix n)
          = 256 * (256 * (256 * (c mod 256) + b mod 256) + a mod 256) + n mod 256"
    unfolding length_prefix_def big_endian_value_def list.map d0 d1 d2 d3
    by (simp only: foldl.simps of_char_of) simp
  also have "\<dots> = 256 * (256 * (256 * c + r2) + r1) + r0"
    unfolding cm r0_def r1_def r2_def ..
  also have "\<dots> = n" using en ea eb by simp
  finally show ?thesis .
qed

lemma hex2_lowercase: "set (hex2 b) \<subseteq> set ''0123456789abcdef''"
proof -
  let ?n = "of_char b :: nat"
  have "?n < 256" by simp
  then have hi: "?n div 16 < 16" by arith
  have lo: "?n mod 16 < 16" by simp
  have "hexdigit k \<in> set ''0123456789abcdef''" if "k < 16" for k
    using below_16_cases [OF that] by (auto simp: hexdigit_def)
  then show ?thesis using hi lo by (simp add: hex2_def)
qed

lemma take_hex: "take (2 * n) (concat (map hex2 d)) = concat (map hex2 (take n d))"
proof (induction d arbitrary: n)
  case Nil
  show ?case by simp
next
  case (Cons b d)
  show ?case
  proof (cases n)
    case 0
    then show ?thesis by simp
  next
    case (Suc m)
    have "take (2 * Suc m) (hex2 b @ concat (map hex2 d))
            = hex2 b @ take (2 * m) (concat (map hex2 d))"
      by (simp add: hex2_def)
    then show ?thesis using Suc Cons.IH [of m] by simp
  qed
qed

lemma length_hex: "length (concat (map hex2 d)) = 2 * length d"
  by (induction d) (simp_all add: hex2_def)

lemma hexdigest_key:
  assumes "8 \<le> length (sha512_hash secret)"
  shows "take 16 (snd (make_hasher_sha512 sha512_hash secret))
           = concat (map hex2 (take 8 (sha512_hash secret)))"
    and "length (take 16 (snd (make_hasher_sha512 sha512_hash secret))) = 16"
    and "16 \<le> length (snd (make_hasher_sha512 sha512_hash secret))"
proof -
  show k: "take 16 (snd (make_hasher_sha512 sha512_hash secret))
           = concat (map hex2 (take 8 (sha512_hash secret)))"
    using take_hex [of 8 "sha512_hash secret"] by (simp add: make_hasher_sha512_def)
  show "16 \<le> length (snd (make_hasher_sha512 sha512_hash secret))"
    using assms by (simp add: make_hasher_sha512_def length_hex)
  then show "length (take 16 (snd (make_hasher_sha512 sha512_hash secret))) = 16" by simp
qed

text \<open>
  C5 (as amended). For every name shorter than \<open>2^31\<close> bytes, \<^verbatim>\<open>__enc\<close> returns the
  lowercase hexadecimal rendering of the CBC encryption of a plaintext made of a
  four-byte prefix whose big-endian value is the length of the name, the name, and
  fewer than 16 padding spaces that bring the length to a multiple of 16; this is the
  name under which the wrapper's \<^verbatim>\<open>put\<close> stores. The key is the first 16 characters
  of the hexadecimal SHA-512 digest of the secret, which render the first 8 bytes
  (64 bits) of the hash.
\<close>

theorem NameCrypto_enc_formula:
  assumes "length name < 2 ^ 31" "8 \<le> length (sha512_hash secret)"
  shows "\<exists>key prefix pad.
           key = take 16 (snd (make_hasher_sha512 sha512_hash secret))
         \<and> key = concat (map hex2 (take 8 (sha512_hash secret))) \<and> length key = 16
         \<and> length prefix = 4 \<and> big_endian_value prefix = length name
         \<and> set pad \<subseteq> {CHR '' ''} \<and> length pad < 16 \<and> length (prefix @ name @ pad) mod 16 = 0
         \<and> NameCrypto_enc aes (snd (make_hasher_sha512 sha512_hash secret)) name
             = Inr (concat (map hex2 (cbc_encrypt aes key (prefix @ name @ pad))))
         \<and> be_put (NameCrypto aes (make_hasher_sha512 sha512_hash) next' secret) [PStr name, data] st
             = be_put next' [PStr (concat (map hex2 (cbc_encrypt aes key (prefix @ name @ pad)))),
                             data] st
         \<and> (\<forall>b. set (hex2 b) \<subseteq> set ''0123456789abcdef'')"
proof -
  let ?digest = "snd (make_hasher_sha512 sha512_hash secret)"
  let ?key = "take 16 ?digest"
  let ?prefix = "length_prefix (length name)"
  note hk = hexdigest_key [where sha512_hash = sha512_hash and secret = secret, OF assms(2)]
  define pad where "pad = replicate ((16 - length (?prefix @ name) mod 16) mod 16) CHR '' ''"
  have pad: "pad_to_block (?prefix @ name) = (?prefix @ name) @ pad"
      "set pad \<subseteq> {CHR '' ''}" "length pad < 16"
    unfolding pad_def by (auto simp: pad_to_block_def)
  have pad4: "length (?prefix @ name @ pad) mod 16 = 0"
    using length_pad_to_block [of "?prefix @ name"] unfolding pad(1) by simp
  have e: "NameCrypto_enc aes ?digest name
             = Inr (concat (map hex2 (cbc_encrypt aes ?key (?prefix @ name @ pad))))"
    using NameCrypto_enc_spec [where cryptoKey = ?digest and aes = aes, OF hk(3) assms(1)] pad(1)
    by (simp add: encrypt_name_spec_def)
  have p: "be_put (NameCrypto aes (make_hasher_sha512 sha512_hash) next' secret) [PStr name, data] st
             = be_put next' [PStr (concat (map hex2 (cbc_encrypt aes ?key
                                                       (?prefix @ name @ pad)))), data] st"
    by (simp add: NameCrypto_def Let_def e)
  show ?thesis
    by (intro exI [of _ ?key] exI [of _ ?prefix] exI [of _ pad] conjI refl hk(1) hk(2)
          length_length_prefix big_endian_length_prefix [OF assms(1)] pad(2) pad(3) pad4
          e p allI hex2_lowercase)
qed

theorem NameCrypto_enc_formula_witness:
  "NameCrypto_enc plain_cipher (snd (make_hasher_sha512 plain_sha512 ''secret'')) ''ab''
     = Inr ''00000002616220202020202020202020''
   \<and> (\<exists>key prefix pad.
           key = take 16 (snd (make_hasher_sha512 plain_sha512 ''secret''))
         \<and> key = concat (map hex2 (take 8 (plain_sha512 ''secret''))) \<and> length key = 16
         \<and> length prefix = 4 \<and> big_endian_value prefix = length ''ab''
         \<and> set pad \<subseteq> {CHR '' ''} \<and> length pad < 16 \<and> length (prefix @ ''ab'' @ pad) mod 16 = 0
         \<and> NameCrypto_enc plain_cipher (snd (make_hasher_sha512 plain_sha512 ''secret'')) ''ab''
             = Inr (concat (map hex2 (cbc_encrypt plain_cipher key (prefix @ ''ab'' @ pad))))
         \<and> be_put (NameCrypto plain_cipher (make_hasher_sha512 plain_sha512) MemoryBackend ''secret'')
              [PStr ''ab'', PStr ''data''] []
             = be_put MemoryBackend
                 [PStr (concat (map hex2 (cbc_encrypt plain_cipher key (prefix @ ''ab'' @ pad)))),
                  PStr ''data''] []
         \<and> (\<forall>b. set (hex2 b) \<subseteq> set ''0123456789abcdef''))"
proof -
  have a: "length ''ab'' < 2 ^ 31" by simp
  have b: "8 \<le> length (plain_sha512 ''secret'')" by (simp add: plain_sha512_def)
  have c: "NameCrypto_enc plain_cipher (snd (make_hasher_sha512 plain_sha512 ''secret'')) ''ab''
     = Inr ''00000002616220202020202020202020''" by code_simp
  note t = NameCrypto_enc_formula [where name = "''ab''" and sha512_hash = plain_sha512
      and secret = "''secret''" and aes = plain_cipher and next' = MemoryBackend
      and data = "PStr ''data''" and st = "[]", OF a b]
  show ?thesis by (rule conjI [OF c t])
qed

text \<open>
  C5 as stated fails in the key: the key given to the cipher is not the first 16 bytes
  (128 bits) of the hash. With a hash function that maps \<^verbatim>\<open>secret\<close> to the bytes
  \<^verbatim>\<open>secret0000...\<close>, the first 128 bits of the hash are \<^verbatim>\<open>secret0000000000\<close>, and
  the key is \<^verbatim>\<open>7365637265743030\<close>, the hexadecimal digits of its first 8 bytes.
\<close>

theorem NameCrypto_key_counterexample:
  "take 16 (plain_sha512 ''secret'') = ''secret0000000000''
   \<and> take 16 (snd (make_hasher_sha512 plain_sha512 ''secret'')) = ''7365637265743030''
   \<and> AES_new (take 16 (snd (make_hasher_sha512 plain_sha512 ''secret'')))
       = Inr ''7365637265743030''"
  by (simp add: plain_sha512_def make_hasher_sha512_def hex2_def hexdigit_def AES_new_def)

section \<open>Properties of the composed wrappers\<close>

lemma enc_status_0:
  assumes "gpg ''-c --force-mdc'' key data = (0, c)"
  shows "enc gpg key data = Inr c"
  using assms by (simp add: enc_def encDec_def)

lemma dec_of_enc:
  assumes "gpg_inverts gpg key" "gpg ''-c --force-mdc'' key data = (0, c)"
  shows "dec gpg key c = Inr data"
proof -
  have "gpg [] key c = (0, data)" using assms unfolding gpg_inverts_def by blast
  then show ?thesis by (simp add: dec_def encDec_def)
qed

lemma mapE_dec_names:
  assumes ci: "cipher_inverts aes (take 16 digest)" and kl: "16 \<le> length digest"
    and ns: "\<forall>n \<in> set names. n \<noteq> [] \<and> length n < 2 ^ 31"
  shows "mapE (\<lambda>x. case x of PStr c \<Rightarrow> NameCrypto_dec aes digest c | _ \<Rightarrow> Inl TypeError)
           (map (\<lambda>n. PStr (encrypt_name_spec aes digest n)) names) = Inr names"
  using ns
proof (induction names)
  case Nil
  show ?case by simp
next
  case (Cons n names)
  have n: "n \<noteq> []" "length n < 2 ^ 31" using Cons.prems by simp_all
  have d: "NameCrypto_dec aes digest (encrypt_name_spec aes digest n) = Inr n"
    using NameCrypto_dec_of_spec [OF ci kl n(2)] n(1) by simp
  have r: "mapE (\<lambda>x. case x of PStr c \<Rightarrow> NameCrypto_dec aes digest c | _ \<Rightarrow> Inl TypeError)
           (map (\<lambda>n. PStr (encrypt_name_spec aes digest n)) names) = Inr names"
    using Cons.prems by (intro Cons.IH) simp
  show ?case by (simp add: d r bindE_Inr)
qed

lemma get_backend_factory_s3:
  "get_backend_factory aes gpg hasher S3Backend (''s3:'' @ ident) (Some key)
     = Inr (NameCrypto aes hasher (DataCryptoGPG gpg (S3Backend ident) key) key)"
  by (simp add: get_backend_factory_def Let_def)

text \<open>
  C4 (as amended). The backend that \<^verbatim>\<open>get_backend_factory\<close> builds for an s3 URI is
  \<^verbatim>\<open>NameCrypto(DataCryptoGPG(raw))\<close>, both layers keyed from the same secret. Under
  a cipher and a gpg whose decryption inverts their encryption: \<^verbatim>\<open>put(name, data)\<close>
  reaches the raw backend with the encrypted hexadecimal name and the encrypted
  content; \<^verbatim>\<open>get(name)\<close> asks the raw backend for the encrypted name and returns the
  plaintext of the content stored there; and \<^verbatim>\<open>list()\<close> returns the plaintext names
  when the raw backend lists the encrypted names of non-empty names.
\<close>

theorem crypto_stack_plaintext_outside:
  assumes ci: "cipher_inverts aes (take 16 (snd (hasher key)))"
    and kl: "16 \<le> length (snd (hasher key))"
    and gi: "gpg_inverts gpg key"
  shows "get_backend_factory aes gpg hasher S3Backend (''s3:'' @ ident) (Some key)
           = Inr (NameCrypto aes hasher (DataCryptoGPG gpg (S3Backend ident) key) key)
       \<and> (\<forall>name data c st.
             length name < 2 ^ 31 \<and> gpg ''-c --force-mdc'' key data = (0, c)
             \<longrightarrow> be_put (NameCrypto aes hasher (DataCryptoGPG gpg (S3Backend ident) key) key)
                    [PStr name, PStr data] st
                 = be_put (S3Backend ident)
                     [PStr (encrypt_name_spec aes (snd (hasher key)) name), PStr c] st)
       \<and> (\<forall>name data c st st'.
             length name < 2 ^ 31 \<and> gpg ''-c --force-mdc'' key data = (0, c)
             \<and> be_get (S3Backend ident) [PStr (encrypt_name_spec aes (snd (hasher key)) name)] st
                 = (Inr (PStr c), st')
             \<longrightarrow> be_get (NameCrypto aes hasher (DataCryptoGPG gpg (S3Backend ident) key) key)
                    [PStr name] st
                 = (Inr (PStr data), st'))
       \<and> (\<forall>names st st'.
             (\<forall>n \<in> set names. n \<noteq> [] \<and> length n < 2 ^ 31)
             \<and> be_list (S3Backend ident) [] st
                 = (Inr (PList (map (\<lambda>n. PStr (encrypt_name_spec aes (snd (hasher key)) n)) names)),
                    st')
             \<longrightarrow> be_list (NameCrypto aes hasher (DataCryptoGPG gpg (S3Backend ident) key) key)
                    [] st
                 = (Inr (PList (map PStr names)), st'))"
proof -
  let ?raw = "S3Backend ident"
  let ?digest = "snd (hasher key)"
  let ?stack = "NameCrypto aes hasher (DataCryptoGPG gpg ?raw key) key"
  have put: "be_put ?stack [PStr name, PStr data] st
               = be_put ?raw [PStr (encrypt_name_spec aes ?digest name), PStr c] st"
    if "length name < 2 ^ 31 \<and> gpg ''-c --force-mdc'' key data = (0, c)" for name data c st
  proof -
    have e: "NameCrypto_enc aes ?digest name = Inr (encrypt_name_spec aes ?digest name)"
      using kl that by (intro NameCrypto_enc_spec) simp_all
    have g: "enc gpg key data = Inr c" using that by (intro enc_status_0) simp
    show ?thesis by (simp add: NameCrypto_def DataCryptoGPG_def Let_def e g)
  qed
  have get: "be_get ?stack [PStr name] st = (Inr (PStr data), st')"
    if "length name < 2 ^ 31 \<and> gpg ''-c --force-mdc'' key data = (0, c)
        \<and> be_get ?raw [PStr (encrypt_name_spec aes ?digest name)] st = (Inr (PStr c), st')"
    for name data c st st'
  proof -
    have e: "NameCrypto_enc aes ?digest name = Inr (encrypt_name_spec aes ?digest name)"
      using kl that by (intro NameCrypto_enc_spec) simp_all
    have g: "dec gpg key c = Inr data" using gi that by (intro dec_of_enc) simp_all
    have r: "be_get ?raw [PStr (encrypt_name_spec aes ?digest name)] st = (Inr (PStr c), st')"
      using that by simp
    show ?thesis by (simp add: NameCrypto_def DataCryptoGPG_def Let_def e g r)
  qed
  have lst: "be_list ?stack [] st = (Inr (PList (map PStr names)), st')"
    if "(\<forall>n \<in> set names. n \<noteq> [] \<and> length n < 2 ^ 31)
        \<and> be_list ?raw [] st
            = (Inr (PList (map (\<lambda>n. PStr (encrypt_name_spec aes ?digest n)) names)), st')"
    for names st st'
  proof -
    have m: "mapE (\<lambda>x. case x of PStr c \<Rightarrow> NameCrypto_dec aes ?digest c | _ \<Rightarrow> Inl TypeError)
           (map (\<lambda>n. PStr (encrypt_name_spec aes ?digest n)) names) = Inr names"
      using ci kl that by (intro mapE_dec_names) simp_all
    have r: "be_list ?raw [] st
            = (Inr (PList (map (\<lambda>n. PStr (encrypt_name_spec aes ?digest n)) names)), st')"
      using that by simp
    show ?thesis
      by (simp add: NameCrypto_def DataCryptoGPG_def BackendWrapper_def Let_def r m)
  qed
  show ?thesis
    using get_backend_factory_s3 [of aes gpg hasher S3Backend ident key] put get lst
    by blast
qed

lemma plain_gpg_inverts: "gpg_inverts plain_gpg key"
  by (simp add: gpg_inverts_def plain_gpg_def)

lemma plain_digest_length: "16 \<le> length (snd (plain_hasher ''secret''))"
proof -
  have "length (plain_sha512 ''secret'') = 64" by (simp add: plain_sha512_def)
  then show ?thesis
    unfolding plain_hasher_def make_hasher_sha512_def snd_conv length_hex by simp
qed

lemma plain_name_h1:
  "encrypt_name_spec plain_cipher (snd (plain_hasher ''secret'')) ''h1''
     = ''00000002683120202020202020202020''"
proof -
  have "NameCrypto_enc plain_cipher (snd (plain_hasher ''secret'')) ''h1''
          = Inr ''00000002683120202020202020202020''"
    by code_simp
  moreover have "NameCrypto_enc plain_cipher (snd (plain_hasher ''secret'')) ''h1''
          = Inr (encrypt_name_spec plain_cipher (snd (plain_hasher ''secret'')) ''h1'')"
    using plain_digest_length by (rule NameCrypto_enc_spec) simp
  ultimately show ?thesis by simp
qed

theorem crypto_stack_plaintext_outside_witness:
  "be_put (NameCrypto plain_cipher plain_hasher
             (DataCryptoGPG plain_gpg MemoryBackend ''secret'') ''secret'')
     [PStr ''h1'', PStr ''data''] []
     = (Inr PNone, [(''00000002683120202020202020202020'', ''data'')])
   \<and> be_get (NameCrypto plain_cipher plain_hasher
                (DataCryptoGPG plain_gpg MemoryBackend ''secret'') ''secret'')
       [PStr ''h1''] [(''00000002683120202020202020202020'', ''data'')]
     = (Inr (PStr ''data''), [(''00000002683120202020202020202020'', ''data'')])
   \<and> be_list (NameCrypto plain_cipher plain_hasher
                 (DataCryptoGPG plain_gpg MemoryBackend ''secret'') ''secret'')
       [] [(''00000002683120202020202020202020'', ''data'')]
     = (Inr (PList [PStr ''h1'']), [(''00000002683120202020202020202020'', ''data'')])"
proof -
  let ?store = "[(''00000002683120202020202020202020'', ''data'')]"
  have ci: "cipher_inverts plain_cipher (take 16 (snd (plain_hasher ''secret'')))"
    by (rule plain_cipher_inverts)
  have kl: "16 \<le> length (snd (plain_hasher ''secret''))" by (rule plain_digest_length)
  have gi: "gpg_inverts plain_gpg ''secret''" by (rule plain_gpg_inverts)
  note t = crypto_stack_plaintext_outside [where S3Backend = "\<lambda>ident. MemoryBackend"
      and ident = "''bucket''" and hasher = plain_hasher and key = "''secret''"
      and aes = plain_cipher and gpg = plain_gpg, OF ci kl gi]
  note tput = t [THEN conjunct2, THEN conjunct1, rule_format]
  note tget = t [THEN conjunct2, THEN conjunct2, THEN conjunct1, rule_format]
  note tlist = t [THEN conjunct2, THEN conjunct2, THEN conjunct2, rule_format]
  have g: "plain_gpg ''-c --force-mdc'' ''secret'' ''data'' = (0, ''data'')"
    by (simp add: plain_gpg_def)
  have l: "length ''h1'' < 2 ^ 31" by simp
  have rput: "be_put MemoryBackend [PStr ''00000002683120202020202020202020'', PStr ''data''] []
                = (Inr PNone, ?store)"
    by (simp add: MemoryBackend_def)
  have rget: "be_get MemoryBackend [PStr ''00000002683120202020202020202020''] ?store
                = (Inr (PStr ''data''), ?store)"
    by (simp add: MemoryBackend_def)
  have rlist: "be_list MemoryBackend [] ?store
                 = (Inr (PList (map (\<lambda>n. PStr (encrypt_name_spec plain_cipher
                                               (snd (plain_hasher ''secret'')) n)) [''h1''])), ?store)"
    by (simp add: MemoryBackend_def plain_name_h1)
  have a: "be_put (NameCrypto plain_cipher plain_hasher
             (DataCryptoGPG plain_gpg MemoryBackend ''secret'') ''secret'')
     [PStr ''h1'', PStr ''data''] [] = (Inr PNone, ?store)"
    using tput [of "''h1''" "''data''" "''data''" "[]"] l g rput by (simp add: plain_name_h1)
  have b: "be_get (NameCrypto plain_cipher plain_hasher
                (DataCryptoGPG plain_gpg MemoryBackend ''secret'') ''secret'')
       [PStr ''h1''] ?store = (Inr (PStr ''data''), ?store)"
    using tget [of "''h1''" "''data''" "''data''" ?store ?store] l g rget
    by (simp add: plain_name_h1)
  have c: "be_list (NameCrypto plain_cipher plain_hasher
                 (DataCryptoGPG plain_gpg MemoryBackend ''secret'') ''secret'')
       [] ?store = (Inr (PList (map PStr [''h1''])), ?store)"
    using tlist [of "[''h1'']" ?store ?store] rlist by simp
  show ?thesis using a b c by simp
qed

text \<open>
  C4 as stated fails for the empty name: \<^verbatim>\<open>put('', data)\<close> stores under the
  encrypted empty name, and \<^verbatim>\<open>list()\<close> on that store raises instead of returning the
  plaintext names, since decryption rejects the length prefix 0.
\<close>

theorem crypto_stack_empty_name_counterexample:
  "be_put (NameCrypto plain_cipher plain_hasher
             (DataCryptoGPG plain_gpg MemoryBackend ''secret'') ''secret'')
     [PStr '''', PStr ''data''] []
     = (Inr PNone, [(''00000000202020202020202020202020'', ''data'')])
   \<and> be_list (NameCrypto plain_cipher plain_hasher
                 (DataCryptoGPG plain_gpg MemoryBackend ''secret'') ''secret'')
       [] [(''00000000202020202020202020202020'', ''data'')]
     = (Inl (StringException wrong_key_message),
        [(''00000000202020202020202020202020'', ''data'')])"
  by code_simp

end
